theory Spec2Isabelle
  imports Complex_Main "HOL-Library.Sublist"
begin

section \<open>Python values used by costgpt\<close>

subsection \<open>Exceptions\<close>

text \<open>
  The exceptions that the modelled code can raise or has to handle. The \<open>httpx\<close> classes
  are those of the library's exception hierarchy: everything below \<open>httpx.HTTPError\<close>
  (request errors, transport errors, timeouts, status errors) and the three classes that
  are not below it (\<open>InvalidURL\<close>, \<open>CookieConflict\<close>, \<open>StreamError\<close>). \<open>OtherError\<close>
  stands for any exception that is not an \<open>httpx\<close> one, for instance the \<open>TypeError\<close>
  of a JSON encoder.
\<close>

datatype exn =
    ImportError string
  | ZeroDivisionError
  | OverflowError
  | AttributeError string
  | TypeError string
  | RecursionError
  | TimeoutException
  | ConnectError
  | ReadError
  | WriteError
  | ProtocolError
  | UnsupportedProtocol
  | ProxyError
  | DecodingError
  | TooManyRedirects
  | HTTPStatusError nat
  | InvalidURL
  | CookieConflict
  | StreamError
  | OtherError string

text \<open>\<open>isinstance(e, httpx.HTTPError)\<close>.\<close>

fun is_HTTPError :: "exn \<Rightarrow> bool" where
  "is_HTTPError TimeoutException = True"
| "is_HTTPError ConnectError = True"
| "is_HTTPError ReadError = True"
| "is_HTTPError WriteError = True"
| "is_HTTPError ProtocolError = True"
| "is_HTTPError UnsupportedProtocol = True"
| "is_HTTPError ProxyError = True"
| "is_HTTPError DecodingError = True"
| "is_HTTPError TooManyRedirects = True"
| "is_HTTPError (HTTPStatusError s) = True"
| "is_HTTPError e = False"

subsection \<open>Floats: IEEE 754 binary64 with round-to-nearest, ties-to-even\<close>

text \<open>
  A Python \<open>float\<close> is a binary64 number. A finite float is modelled by the rational it
  denotes (the two zeros are identified: they compare equal in Python); every operation
  computes the exact rational result and rounds it with \<open>round_double\<close>.
\<close>

datatype pyfloat = Fin rat | PInf | NInf | NaN

text \<open>Nearest integer, a tie going to the even neighbour.\<close>

definition round_half_even :: "rat \<Rightarrow> int" where
  "round_half_even x =
     (let f = \<lfloor>x\<rfloor>; d = x - of_int f
      in if d < 1/2 then f else if 1/2 < d then f + 1 else if even f then f else f + 1)"

text \<open>\<open>ilog2 a\<close> is the binary exponent of \<open>a > 0\<close>: \<open>2 ^ ilog2 a \<le> a < 2 ^ (ilog2 a + 1)\<close>.\<close>

function log2_up :: "rat \<Rightarrow> nat" where
  "log2_up a = (if a < 2 then 0 else Suc (log2_up (a / 2)))"
  by pat_completeness auto
termination
proof (relation "measure (\<lambda>a. nat \<lfloor>a\<rfloor>)")
  show "wf (measure (\<lambda>a::rat. nat \<lfloor>a\<rfloor>))" by simp
next
  fix a :: rat
  assume "\<not> a < 2"
  then have "a / 2 \<le> a - 1" by simp
  then have "\<lfloor>a / 2\<rfloor> \<le> \<lfloor>a - 1\<rfloor>" by (rule floor_mono)
  moreover have "1 \<le> \<lfloor>a\<rfloor>" using \<open>\<not> a < 2\<close> by (simp add: le_floor_iff)
  ultimately show "(a / 2, a) \<in> measure (\<lambda>a. nat \<lfloor>a\<rfloor>)" by simp
qed

function log2_down :: "rat \<Rightarrow> nat" where
  "log2_down a = (if a \<le> 0 \<or> 1 \<le> a then 0 else Suc (log2_down (a * 2)))"
  by pat_completeness auto
termination
proof (relation "measure (\<lambda>a. nat \<lfloor>1 / a\<rfloor>)")
  show "wf (measure (\<lambda>a::rat. nat \<lfloor>1 / a\<rfloor>))" by simp
next
  fix a :: rat
  assume "\<not> (a \<le> 0 \<or> 1 \<le> a)"
  then have a: "0 < a" "a < 1" by auto
  define n where "n = \<lfloor>1 / a\<rfloor>"
  have "1 \<le> 1 / a" using a by simp
  then have n1: "1 \<le> n" unfolding n_def by (simp add: le_floor_iff)
  have "1 / a < of_int n + 1" unfolding n_def by linarith
  then have "1 / (a * 2) < (of_int n + 1) / 2" by simp
  also have "\<dots> \<le> of_int n" using n1 by simp
  finally have "\<lfloor>1 / (a * 2)\<rfloor> < n" by (simp add: floor_less_iff)
  then show "(a * 2, a) \<in> measure (\<lambda>a. nat \<lfloor>1 / a\<rfloor>)"
    using n1 unfolding n_def by simp
qed

definition ilog2 :: "rat \<Rightarrow> int" where
  "ilog2 a = (if 1 \<le> a then int (log2_up a) else - int (log2_down a))"

text \<open>
  The spacing of the doubles around \<open>a\<close>: 53 significant bits, and never finer than the
  subnormal spacing \<open>2 ^ -1074\<close>.
\<close>

definition quantum :: "rat \<Rightarrow> rat" where
  "quantum a = 2 powi (max (ilog2 a - 52) (- 1074))"

definition round_mag :: "rat \<Rightarrow> rat" where
  "round_mag a = of_int (round_half_even (a / quantum a)) * quantum a"

text \<open>A rounded magnitude of \<open>2 ^ 1024\<close> or more overflows to an infinity.\<close>

definition round_double :: "rat \<Rightarrow> pyfloat" where
  "round_double x =
     (let r = round_mag \<bar>x\<bar>
      in if 2 powi 1024 \<le> r then (if 0 < x then PInf else NInf)
         else Fin (sgn x * r))"

text \<open>A decimal literal of the source, such as \<open>0.075\<close>: the nearest double.\<close>

definition float_lit :: "rat \<Rightarrow> pyfloat" where
  "float_lit q = round_double q"

text \<open>
  \<open>p / q\<close> on two Python ints: the correctly rounded quotient; \<open>OverflowError\<close>
  ("integer division result too large for a float") when it is not finite.
\<close>

definition int_truediv :: "int \<Rightarrow> int \<Rightarrow> exn + pyfloat" where
  "int_truediv p q =
     (if q = 0 then Inl ZeroDivisionError
      else case round_double (of_int p / of_int q) of
             Fin r \<Rightarrow> Inr (Fin r)
           | PInf \<Rightarrow> Inl OverflowError
           | NInf \<Rightarrow> Inl OverflowError
           | NaN \<Rightarrow> Inl OverflowError)"

text \<open>\<open>x * y\<close> and \<open>x + y\<close> on floats: these never raise.\<close>

fun float_mul :: "pyfloat \<Rightarrow> pyfloat \<Rightarrow> pyfloat" where
  "float_mul (Fin x) (Fin y) = round_double (x * y)"
| "float_mul (Fin x) PInf = (if x = 0 then NaN else if 0 < x then PInf else NInf)"
| "float_mul (Fin x) NInf = (if x = 0 then NaN else if 0 < x then NInf else PInf)"
| "float_mul PInf (Fin y) = (if y = 0 then NaN else if 0 < y then PInf else NInf)"
| "float_mul NInf (Fin y) = (if y = 0 then NaN else if 0 < y then NInf else PInf)"
| "float_mul PInf PInf = PInf"
| "float_mul PInf NInf = NInf"
| "float_mul NInf PInf = NInf"
| "float_mul NInf NInf = PInf"
| "float_mul NaN y = NaN"
| "float_mul x NaN = NaN"

fun float_add :: "pyfloat \<Rightarrow> pyfloat \<Rightarrow> pyfloat" where
  "float_add (Fin x) (Fin y) = round_double (x + y)"
| "float_add (Fin x) PInf = PInf"
| "float_add (Fin x) NInf = NInf"
| "float_add PInf (Fin y) = PInf"
| "float_add NInf (Fin y) = NInf"
| "float_add PInf PInf = PInf"
| "float_add NInf NInf = NInf"
| "float_add PInf NInf = NaN"
| "float_add NInf PInf = NaN"
| "float_add NaN y = NaN"
| "float_add x NaN = NaN"

text \<open>\<open>x <= y\<close> on floats: false as soon as one side is a NaN.\<close>

fun float_le :: "pyfloat \<Rightarrow> pyfloat \<Rightarrow> bool" where
  "float_le (Fin x) (Fin y) = (x \<le> y)"
| "float_le (Fin x) PInf = True"
| "float_le (Fin x) NInf = False"
| "float_le PInf (Fin y) = False"
| "float_le NInf (Fin y) = True"
| "float_le PInf PInf = True"
| "float_le NInf NInf = True"
| "float_le PInf NInf = False"
| "float_le NInf PInf = True"
| "float_le NaN y = False"
| "float_le x NaN = False"

section \<open>\<open>costgpt/pricing.py\<close>\<close>

text \<open>
  \<open>PRICING\<close> and \<open>ALIASES\<close> are dict literals. A Python dict iterates in insertion order,
  so each is the list of its items in the order of the source; \<open>map_of\<close> is the lookup
  (the keys of each literal are pairwise distinct).
\<close>

definition PRICING :: "(string \<times> (pyfloat \<times> pyfloat)) list" where
  "PRICING =
    [(''claude-opus-4-20250514'', (float_lit 15.00, float_lit 75.00)),
     (''claude-sonnet-4-20250514'', (float_lit 3.00, float_lit 15.00)),
     (''claude-3-5-sonnet-20241022'', (float_lit 3.00, float_lit 15.00)),
     (''claude-3-5-haiku-20241022'', (float_lit 0.80, float_lit 4.00)),
     (''claude-3-opus-20240229'', (float_lit 15.00, float_lit 75.00)),
     (''claude-3-sonnet-20240229'', (float_lit 3.00, float_lit 15.00)),
     (''claude-3-haiku-20240307'', (float_lit 0.25, float_lit 1.25)),
     (''gpt-4o'', (float_lit 2.50, float_lit 10.00)),
     (''gpt-4o-mini'', (float_lit 0.15, float_lit 0.60)),
     (''gpt-4-turbo'', (float_lit 10.00, float_lit 30.00)),
     (''gpt-4'', (float_lit 30.00, float_lit 60.00)),
     (''gpt-3.5-turbo'', (float_lit 0.50, float_lit 1.50)),
     (''o1'', (float_lit 15.00, float_lit 60.00)),
     (''o1-mini'', (float_lit 3.00, float_lit 12.00)),
     (''o1-preview'', (float_lit 15.00, float_lit 60.00)),
     (''gemini-1.5-pro'', (float_lit 1.25, float_lit 5.00)),
     (''gemini-1.5-flash'', (float_lit 0.075, float_lit 0.30)),
     (''gemini-2.0-flash'', (float_lit 0.10, float_lit 0.40)),
     (''mistral-large'', (float_lit 2.00, float_lit 6.00)),
     (''mistral-small'', (float_lit 0.20, float_lit 0.60)),
     (''codestral'', (float_lit 0.20, float_lit 0.60))]"

definition ALIASES :: "(string \<times> string) list" where
  "ALIASES =
    [(''claude-3.5-sonnet'', ''claude-3-5-sonnet-20241022''),
     (''claude-3.5-haiku'', ''claude-3-5-haiku-20241022''),
     (''gpt-4o-2024-08-06'', ''gpt-4o''),
     (''gpt-4o-2024-05-13'', ''gpt-4o'')]"

text \<open>
  The loop of \<open>get_cost\<close> over the keys of a price table:
  \<^verbatim>\<open>
  for key in PRICING:
      if model_key.startswith(key) or key.startswith(model_key):
          model_key = key
          break
  \<close>
  The result is the value of \<open>model_key\<close> after the loop.
\<close>

fun prefix_scan :: "string \<Rightarrow> string list \<Rightarrow> string" where
  "prefix_scan model_key [] = model_key"
| "prefix_scan model_key (key # keys) =
     (if prefix key model_key \<or> prefix model_key key then key
      else prefix_scan model_key keys)"

text \<open>
  Lines 62 to 69 of \<open>get_cost\<close>, over an alias table and a price table: the value of
  \<open>model_key\<close> when the second membership test is reached.
\<close>

definition resolve_in :: "(string \<times> string) list \<Rightarrow> (string \<times> 'p) list \<Rightarrow> string \<Rightarrow> string" where
  "resolve_in aliases pricing model =
     (let model_key = (case map_of aliases model of None \<Rightarrow> model | Some c \<Rightarrow> c)
      in if map_of pricing model_key = None
         then prefix_scan model_key (map fst pricing)
         else model_key)"

definition resolve_model_key :: "string \<Rightarrow> string" where
  "resolve_model_key model = resolve_in ALIASES PRICING model"

text \<open>
  Lines 71 to 81 of \<open>get_cost\<close>: the costs for the entry that \<open>PRICING[model_key]\<close> holds,
  \<open>None\<close> standing for \<open>model_key not in PRICING\<close>.
\<close>

definition cost_of_entry ::
  "(pyfloat \<times> pyfloat) option \<Rightarrow> int \<Rightarrow> int \<Rightarrow> exn + (pyfloat \<times> pyfloat \<times> pyfloat)" where
  "cost_of_entry entry input_tokens output_tokens =
     (case entry of
        None \<Rightarrow> Inr (Fin 0, Fin 0, Fin 0)
      | Some (input_price, output_price) \<Rightarrow>
          (case int_truediv input_tokens 1000000 of
             Inl e \<Rightarrow> Inl e
           | Inr qi \<Rightarrow>
               (let input_cost = float_mul qi input_price
                in case int_truediv output_tokens 1000000 of
                     Inl e \<Rightarrow> Inl e
                   | Inr qo \<Rightarrow>
                       (let output_cost = float_mul qo output_price;
                            total_cost = float_add input_cost output_cost
                        in Inr (input_cost, output_cost, total_cost)))))"

definition get_cost :: "string \<Rightarrow> int \<Rightarrow> int \<Rightarrow> exn + (pyfloat \<times> pyfloat \<times> pyfloat)" where
  "get_cost model input_tokens output_tokens =
     cost_of_entry (map_of PRICING (resolve_model_key model)) input_tokens output_tokens"

text \<open>
  The reference algorithm of the specification (PriceCatalog, steps 1 to 4), written from
  its words: replace an alias by its canonical id; return the entry of an exact match;
  otherwise return the first entry, in the declared order, whose id is a prefix of the
  name or of which the name is a prefix; otherwise the name is unresolved.
\<close>

definition spec_resolve ::
  "(string \<times> string) list \<Rightarrow> (string \<times> 'p) list \<Rightarrow> string \<Rightarrow> (string \<times> 'p) option" where
  "spec_resolve aliases pricing model_name =
     (let name = (case map_of aliases model_name of Some canonical \<Rightarrow> canonical
                  | None \<Rightarrow> model_name)
      in case map_of pricing name of
           Some entry \<Rightarrow> Some (name, entry)
         | None \<Rightarrow> find (\<lambda>(k, entry). prefix k name \<or> prefix name k) pricing)"

section \<open>\<open>costgpt/tracker.py\<close> and \<open>costgpt/client.py\<close>\<close>

text \<open>
  The dataclass \<open>UsageEvent\<close>. The field \<open>id\<close> is \<open>event_id\<close> here; a UUID and a
  timestamp are natural numbers; \<open>metadata\<close> is a dict of strings.
\<close>

record UsageEvent =
  event_id :: nat
  timestamp :: nat
  model :: string
  input_tokens :: int
  output_tokens :: int
  input_cost :: pyfloat
  output_cost :: pyfloat
  total_cost :: pyfloat
  duration_ms :: "int option"
  user_id :: "string option"
  feature :: "string option"
  metadata :: "(string \<times> string) list"

text \<open>
  One HTTP POST of the client: the URL, the \<open>Authorization\<close> header and the JSON body.
  The body carries every field of the events it is built from; the JSON encoding itself is
  not modelled.
\<close>

datatype body = Single UsageEvent | Batch "UsageEvent list"

record request =
  url :: string
  authorization :: string
  json :: body

text \<open>
  What \<open>httpx.Client.post\<close> does with a request: it returns a response with a status code,
  or it raises. The network is an input of the model.
\<close>

datatype post_result = Status nat | Raised exn

text \<open>\<open>response.raise_for_status()\<close>: \<open>HTTPStatusError\<close> unless the status is a 2xx.\<close>

definition raise_for_status :: "nat \<Rightarrow> exn + unit" where
  "raise_for_status status =
     (if 200 \<le> status \<and> status < 300 then Inr () else Inl (HTTPStatusError status))"

record APIClient =
  client_api_key :: string
  base_url :: string

text \<open>\<open>base_url.rstrip("/")\<close>.\<close>

definition rstrip_slash :: "string \<Rightarrow> string" where
  "rstrip_slash s = rev (dropWhile (\<lambda>c. c = CHR ''/'') (rev s))"

definition APIClient_init :: "string \<Rightarrow> string \<Rightarrow> APIClient" where
  "APIClient_init key base = \<lparr>client_api_key = key, base_url = rstrip_slash base\<rparr>"

text \<open>
  \<^verbatim>\<open>
  try:
      response = self._client.post(url, json=payload)
      response.raise_for_status()
  except httpx.HTTPError:
      pass
  \<close>
  The second component is the list of the requests issued so far, with this call's POST
  appended.
\<close>

definition post_and_discard ::
  "(request \<Rightarrow> post_result) \<Rightarrow> request \<Rightarrow> request list \<Rightarrow> (exn + unit) \<times> request list" where
  "post_and_discard post req sent =
     (let attempt = (case post req of Raised e \<Rightarrow> Inl e | Status s \<Rightarrow> raise_for_status s)
      in (case attempt of
            Inl e \<Rightarrow> if is_HTTPError e then Inr () else Inl e
          | Inr u \<Rightarrow> Inr (),
          sent @ [req]))"

definition send_event ::
  "(request \<Rightarrow> post_result) \<Rightarrow> APIClient \<Rightarrow> UsageEvent \<Rightarrow> request list
     \<Rightarrow> (exn + unit) \<times> request list" where
  "send_event post self event sent =
     post_and_discard post
       \<lparr>url = base_url self @ ''/v1/events'',
        authorization = ''Bearer '' @ client_api_key self,
        json = Single event\<rparr> sent"

definition send_events_batch ::
  "(request \<Rightarrow> post_result) \<Rightarrow> APIClient \<Rightarrow> UsageEvent list \<Rightarrow> request list
     \<Rightarrow> (exn + unit) \<times> request list" where
  "send_events_batch post self events sent =
     post_and_discard post
       \<lparr>url = base_url self @ ''/v1/events/batch'',
        authorization = ''Bearer '' @ client_api_key self,
        json = Batch events\<rparr> sent"

record CostTracker =
  api_key :: "string option"
  api_url :: string
  default_user_id :: "string option"
  default_feature :: "string option"
  client :: "APIClient option"

text \<open>\<open>CostTracker.__init__\<close>: a client is built when \<open>api_key\<close> is truthy.\<close>

definition CostTracker_init ::
  "string option \<Rightarrow> string \<Rightarrow> string option \<Rightarrow> string option \<Rightarrow> CostTracker" where
  "CostTracker_init key base duid dfeat =
     \<lparr>api_key = key, api_url = base, default_user_id = duid, default_feature = dfeat,
      client = (case key of
                  None \<Rightarrow> None
                | Some k \<Rightarrow> if k = [] then None else Some (APIClient_init k base))\<rparr>"

text \<open>
  \<open>a or b\<close> on two values of type \<open>str | None\<close>: \<open>a\<close> when it is truthy, that is neither
  \<open>None\<close> nor the empty string, and \<open>b\<close> otherwise.
\<close>

definition str_or :: "string option \<Rightarrow> string option \<Rightarrow> string option" where
  "str_or a b = (case a of None \<Rightarrow> b | Some s \<Rightarrow> if s = [] then b else Some s)"

text \<open>\<open>metadata or {}\<close>.\<close>

definition dict_or_empty :: "(string \<times> string) list option \<Rightarrow> (string \<times> string) list" where
  "dict_or_empty m = (case m of None \<Rightarrow> [] | Some d \<Rightarrow> if d = [] then [] else d)"

datatype usage = Usage int int

text \<open>
  What a provider's \<open>create\<close> returns: an object with the attributes \<open>model\<close> and \<open>usage\<close>
  (\<open>usage\<close> may be \<open>None\<close>; it holds the two token counts, named
  \<open>input_tokens\<close>/\<open>output_tokens\<close> by one provider and
  \<open>prompt_tokens\<close>/\<open>completion_tokens\<close> by the other), or an object with neither
  attribute, such as the stream handle of a streaming call.
\<close>

datatype result = Result string "usage option" | Stream

type_synonym call_args = "string list"

text \<open>
  What the interpreter and the outside world supply to a call: the behaviour of the
  provider library's own callables, the network, the duration that the wrapper measures
  (\<open>int((time.perf_counter() - start) * 1000)\<close>), the value of \<open>uuid4()\<close> and the value of
  \<open>datetime.now(timezone.utc)\<close>.
\<close>

record runtime =
  lib_call :: "nat \<Rightarrow> call_args \<Rightarrow> exn + result"
  post :: "request \<Rightarrow> post_result"
  elapsed_ms :: int
  uuid4 :: nat
  utc_now :: nat

text \<open>\<open>CostTracker.track\<close>, threading the list of the requests issued.\<close>

definition track ::
  "runtime \<Rightarrow> CostTracker \<Rightarrow> string \<Rightarrow> int \<Rightarrow> int \<Rightarrow> string option \<Rightarrow> string option
     \<Rightarrow> int option \<Rightarrow> (string \<times> string) list option \<Rightarrow> request list
     \<Rightarrow> (exn + UsageEvent) \<times> request list" where
  "track rt self m it ot uid feat dur meta sent =
     (case get_cost m it ot of
        Inl e \<Rightarrow> (Inl e, sent)
      | Inr (ic, oc, tc) \<Rightarrow>
          (let event =
                 \<lparr>event_id = uuid4 rt, timestamp = utc_now rt, model = m,
                  input_tokens = it, output_tokens = ot,
                  input_cost = ic, output_cost = oc, total_cost = tc,
                  duration_ms = dur,
                  user_id = str_or uid (default_user_id self),
                  feature = str_or feat (default_feature self),
                  metadata = dict_or_empty meta\<rparr>
           in case client self of
                None \<Rightarrow> (Inr event, sent)
              | Some c \<Rightarrow>
                  (case send_event (post rt) c event sent of
                     (Inl e, sent') \<Rightarrow> (Inl e, sent')
                   | (Inr u, sent') \<Rightarrow> (Inr event, sent'))))"

section \<open>\<open>costgpt/instruments/anthropic.py\<close> and \<open>costgpt/instruments/openai.py\<close>\<close>

text \<open>
  The two modules have the same \<open>instrument\<close> and \<open>uninstrument\<close>, each on its own pair of
  module globals and its own library slot (\<open>anthropic.resources.messages.Messages.create\<close>,
  \<open>openai.resources.chat.completions.Completions.create\<close>); they differ in the body of
  \<open>tracked_create\<close>. One definition, with the provider as a parameter, stands for both.
\<close>

datatype provider = Anthropic | OpenAI

text \<open>
  A callable that can sit in a library slot: a function of the library, identified by a
  number, or a \<open>tracked_create\<close> closure built by \<open>instrument\<close>. \<open>functools.wraps\<close> stores
  the wrapped callable in the closure (\<open>__wrapped__\<close>); the body of the closure reads the
  module globals when it is called.
\<close>

datatype callable = LibraryFunction nat | TrackedCreate provider callable

record hook_globals =
  original_create :: "callable option"
  tracker :: "CostTracker option"

text \<open>
  The process state: for each provider, the content of the library slot (\<open>None\<close> when the
  package cannot be imported) and the module globals; and the requests issued so far.
\<close>

record world =
  library :: "provider \<Rightarrow> callable option"
  globals :: "provider \<Rightarrow> hook_globals"
  posts :: "request list"

definition package_name :: "provider \<Rightarrow> string" where
  "package_name p = (case p of Anthropic \<Rightarrow> ''anthropic'' | OpenAI \<Rightarrow> ''openai'')"

definition instrument :: "provider \<Rightarrow> CostTracker \<Rightarrow> world \<Rightarrow> (exn + unit) \<times> world" where
  "instrument p trk w =
     (case library w p of
        None \<Rightarrow>
          (Inl (ImportError (package_name p @ '' package not installed. Run: pip install ''
                              @ package_name p)), w)
      | Some create \<Rightarrow>
          (case original_create (globals w p) of
             Some f \<Rightarrow> (Inr (), w)
           | None \<Rightarrow>
               (Inr (),
                w\<lparr>globals := (globals w)(p := \<lparr>original_create = Some create, tracker = Some trk\<rparr>),
                  library := (library w)(p := Some (TrackedCreate p create))\<rparr>)))"

definition uninstrument :: "provider \<Rightarrow> world \<Rightarrow> (exn + unit) \<times> world" where
  "uninstrument p w =
     (case original_create (globals w p) of
        None \<Rightarrow> (Inr (), w)
      | Some f \<Rightarrow>
          (case library w p of
             None \<Rightarrow> (Inr (), w)
           | Some create \<Rightarrow>
               (Inr (),
                w\<lparr>library := (library w)(p := Some f),
                  globals := (globals w)(p := \<lparr>original_create = None, tracker = None\<rparr>)\<rparr>)))"

definition instrument_anthropic :: "CostTracker \<Rightarrow> world \<Rightarrow> (exn + unit) \<times> world" where
  "instrument_anthropic self w = instrument Anthropic self w"

definition instrument_openai :: "CostTracker \<Rightarrow> world \<Rightarrow> (exn + unit) \<times> world" where
  "instrument_openai self w = instrument OpenAI self w"

text \<open>
  The part of \<open>tracked_create\<close> that follows the call of the original, for a result that the
  original has returned. Anthropic:
  \<^verbatim>\<open>
  _tracker.track(model=result.model, input_tokens=result.usage.input_tokens,
                 output_tokens=result.usage.output_tokens, duration_ms=duration_ms)
  return result
  \<close>
  OpenAI:
  \<^verbatim>\<open>
  if result.usage:
      _tracker.track(model=result.model, input_tokens=result.usage.prompt_tokens,
                     output_tokens=result.usage.completion_tokens, duration_ms=duration_ms)
  return result
  \<close>
  Reading an attribute that the object does not have, or an attribute of \<open>None\<close>, raises
  \<open>AttributeError\<close>; an exception of \<open>track\<close> is not caught.
\<close>

definition track_result ::
  "runtime \<Rightarrow> CostTracker option \<Rightarrow> string \<Rightarrow> usage \<Rightarrow> result \<Rightarrow> request list
     \<Rightarrow> (exn + result) \<times> request list" where
  "track_result rt trk m u res sent =
     (case trk of
        None \<Rightarrow> (Inl (AttributeError ''track''), sent)
      | Some t \<Rightarrow>
          (case u of Usage tin tout \<Rightarrow>
             (case track rt t m tin tout None None (Some (elapsed_ms rt)) None sent of
                (Inl e, sent') \<Rightarrow> (Inl e, sent')
              | (Inr ev, sent') \<Rightarrow> (Inr res, sent'))))"

fun after_create ::
  "provider \<Rightarrow> runtime \<Rightarrow> CostTracker option \<Rightarrow> result \<Rightarrow> request list
     \<Rightarrow> (exn + result) \<times> request list" where
  "after_create Anthropic rt trk Stream sent =
     (case trk of None \<Rightarrow> (Inl (AttributeError ''track''), sent)
      | Some t \<Rightarrow> (Inl (AttributeError ''model''), sent))"
| "after_create Anthropic rt trk (Result m None) sent =
     (case trk of None \<Rightarrow> (Inl (AttributeError ''track''), sent)
      | Some t \<Rightarrow> (Inl (AttributeError ''input_tokens''), sent))"
| "after_create Anthropic rt trk (Result m (Some u)) sent =
     track_result rt trk m u (Result m (Some u)) sent"
| "after_create OpenAI rt trk Stream sent = (Inl (AttributeError ''usage''), sent)"
| "after_create OpenAI rt trk (Result m None) sent = (Inr (Result m None), sent)"
| "after_create OpenAI rt trk (Result m (Some u)) sent =
     track_result rt trk m u (Result m (Some u)) sent"

text \<open>
  Calling a callable with \<open>args\<close>. A library function answers as the runtime says. A
  \<open>tracked_create\<close> closure calls the current \<open>_original_create\<close> of its module with the
  same arguments (calling \<open>None\<close> raises \<open>TypeError\<close>; an exception of the original
  propagates) and goes on with \<open>after_create\<close>. The first argument bounds the depth of
  the call stack: the interpreter raises \<open>RecursionError\<close> beyond its limit.
\<close>

fun invoke ::
  "nat \<Rightarrow> runtime \<Rightarrow> world \<Rightarrow> callable \<Rightarrow> call_args \<Rightarrow> (exn + result) \<times> world" where
  "invoke depth rt w (LibraryFunction n) args = (lib_call rt n args, w)"
| "invoke 0 rt w (TrackedCreate p c) args = (Inl RecursionError, w)"
| "invoke (Suc depth) rt w (TrackedCreate p c) args =
     (case original_create (globals w p) of
        None \<Rightarrow> (Inl (TypeError ''NoneType object is not callable''), w)
      | Some f \<Rightarrow>
          (case invoke depth rt w f args of
             (Inl e, w') \<Rightarrow> (Inl e, w')
           | (Inr res, w') \<Rightarrow>
               (case after_create p rt (tracker (globals w' p)) res (posts w') of
                  (r, sent') \<Rightarrow> (r, w'\<lparr>posts := sent'\<rparr>))))"

text \<open>Calling the library slot of a provider, as a caller of the library does.\<close>

definition call_create ::
  "nat \<Rightarrow> runtime \<Rightarrow> world \<Rightarrow> provider \<Rightarrow> call_args \<Rightarrow> (exn + result) \<times> world" where
  "call_create depth rt w p args =
     (case library w p of
        None \<Rightarrow> (Inl (ImportError (package_name p)), w)
      | Some c \<Rightarrow> invoke depth rt w c args)"

section \<open>Notions used to state the properties\<close>

text \<open>
  A transport failure of a POST: the call raised an \<open>httpx.HTTPError\<close> (a timeout, a
  connection error, any other transport or request error), or it returned a status that is
  not a 2xx.
\<close>

fun transport_failure :: "post_result \<Rightarrow> bool" where
  "transport_failure (Status s) = (s < 200 \<or> 300 \<le> s)"
| "transport_failure (Raised e) = is_HTTPError e"

text \<open>
  The smallest magnitude of a token count whose quotient by \<open>1_000_000\<close> is too large for
  a float: \<open>(2 ^ 1024 - 2 ^ 970) * 10 ^ 6\<close>, about \<open>1.8 * 10 ^ 314\<close>.
\<close>

definition token_limit :: int where
  "token_limit = (2 ^ 1024 - 2 ^ 970) * 1000000"

text \<open>A float that is finite and greater than zero.\<close>

fun positive_finite :: "pyfloat \<Rightarrow> bool" where
  "positive_finite (Fin x) = (0 < x)"
| "positive_finite PInf = False"
| "positive_finite NInf = False"
| "positive_finite NaN = False"

text \<open>
  An outcome of a POST that \<open>send_event\<close> absorbs: a response, whatever its status, or an
  exception below \<open>httpx.HTTPError\<close>.
\<close>

fun absorbed_outcome :: "post_result \<Rightarrow> bool" where
  "absorbed_outcome (Status s) = True"
| "absorbed_outcome (Raised e) = is_HTTPError e"

text \<open>
  The hook state of the specification, read off the module globals: a provider is
  \<open>INSTALLED\<close> when its \<open>_original_create\<close> is not \<open>None\<close>.
\<close>

datatype hook_state = NOT_INSTALLED | INSTALLED

definition hook_state_of :: "world \<Rightarrow> provider \<Rightarrow> hook_state" where
  "hook_state_of w p =
     (case original_create (globals w p) of None \<Rightarrow> NOT_INSTALLED | Some f \<Rightarrow> INSTALLED)"

text \<open>
  The library slot of a provider with respect to the callable \<open>lib0\<close> that the library
  itself put there: the slot holds \<open>lib0\<close> while nothing is installed, and one
  \<open>tracked_create\<close> around \<open>lib0\<close>, with \<open>lib0\<close> captured in \<open>_original_create\<close>, while
  the hook is installed.
\<close>

definition wrapped_once :: "callable option \<Rightarrow> provider \<Rightarrow> world \<Rightarrow> bool" where
  "wrapped_once lib0 p w =
     (case original_create (globals w p) of
        None \<Rightarrow> library w p = lib0
      | Some f \<Rightarrow> lib0 = Some f \<and> library w p = Some (TrackedCreate p f))"

datatype hook_op = Install CostTracker | Uninstall

fun apply_op :: "provider \<Rightarrow> hook_op \<Rightarrow> world \<Rightarrow> (exn + unit) \<times> world" where
  "apply_op p (Install trk) w = instrument p trk w"
| "apply_op p Uninstall w = uninstrument p w"

text \<open>A sequence of operations; an operation that raises leaves the world it returns.\<close>

fun run_ops :: "provider \<Rightarrow> hook_op list \<Rightarrow> world \<Rightarrow> world" where
  "run_ops p [] w = w"
| "run_ops p (x # xs) w = run_ops p xs (snd (apply_op p x w))"

text \<open>
  The state machine of the specification, written from its words; the first argument
  tells whether the provider's library is present.
\<close>

fun spec_step :: "bool \<Rightarrow> hook_state \<Rightarrow> hook_op \<Rightarrow> hook_state" where
  "spec_step present NOT_INSTALLED (Install trk) = (if present then INSTALLED else NOT_INSTALLED)"
| "spec_step present INSTALLED (Install trk) = INSTALLED"
| "spec_step present INSTALLED Uninstall = NOT_INSTALLED"
| "spec_step present NOT_INSTALLED Uninstall = NOT_INSTALLED"

section \<open>Properties of the float operations\<close>

subsection \<open>Binary exponent\<close>

lemmas log2_up_unfold = log2_up.simps
lemmas log2_down_unfold = log2_down.simps
declare log2_up.simps [simp del] log2_down.simps [simp del]


lemma pow2_less_iff: "(2::rat) powi m < 2 powi n \<longleftrightarrow> m < n"
proof
  assume "(2::rat) powi m < 2 powi n"
  show "m < n"
  proof (rule ccontr)
    assume "\<not> m < n"
    then have "(2::rat) powi n \<le> 2 powi m" by (intro power_int_increasing) auto
    with \<open>(2::rat) powi m < 2 powi n\<close> show False by simp
  qed
next
  assume "m < n"
  then show "(2::rat) powi m < 2 powi n" by (intro power_int_strict_increasing) auto
qed

lemma pow2_le_iff: "(2::rat) powi m \<le> 2 powi n \<longleftrightarrow> m \<le> n"
  using pow2_less_iff [of n m] by (auto simp: not_less [symmetric])

lemma pow2_pos: "0 < (2::rat) powi n"
  by simp

lemma pow2_add: "(2::rat) powi (m + n) = 2 powi m * 2 powi n"
  by (simp add: power_int_add)

lemma log2_up_bounds: "1 \<le> a \<Longrightarrow> 2 ^ log2_up a \<le> a \<and> a < 2 ^ Suc (log2_up a)"
proof (induction a rule: log2_up.induct)
  case (1 a)
  show ?case
  proof (cases "a < 2")
    case True
    with "1.prems" show ?thesis by (simp add: log2_up.simps [of a])
  next
    case False
    then have "1 \<le> a / 2" by simp
    with "1.IH" False have "2 ^ log2_up (a / 2) \<le> a / 2 \<and> a / 2 < 2 ^ Suc (log2_up (a / 2))"
      by simp
    with False show ?thesis by (simp add: log2_up.simps [of a])
  qed
qed

lemma log2_down_bounds:
  "0 < a \<Longrightarrow> a < 1 \<Longrightarrow> 1 \<le> a * 2 ^ log2_down a \<and> a * 2 ^ log2_down a < 2"
proof (induction a rule: log2_down.induct)
  case (1 a)
  show ?case
  proof (cases "1 \<le> a * 2")
    case True
    then have "log2_down (a * 2) = 0" by (simp add: log2_down.simps [of "a * 2"])
    with "1.prems" True show ?thesis by (simp add: log2_down.simps [of a])
  next
    case False
    with "1.prems" "1.IH"
    have "1 \<le> a * 2 * 2 ^ log2_down (a * 2) \<and> a * 2 * 2 ^ log2_down (a * 2) < 2"
      by simp
    with "1.prems" show ?thesis by (simp add: log2_down.simps [of a] mult.assoc)
  qed
qed

lemma ilog2_bounds:
  assumes "0 < a"
  shows "2 powi ilog2 a \<le> a" and "a < 2 powi (ilog2 a + 1)"
proof -
  show "2 powi ilog2 a \<le> a"
  proof (cases "1 \<le> a")
    case True
    then show ?thesis using log2_up_bounds [of a] by (simp add: ilog2_def)
  next
    case False
    with assms log2_down_bounds [of a] have "1 \<le> a * 2 ^ log2_down a" by simp
    then have "1 / 2 ^ log2_down a \<le> a" by (simp add: divide_simps)
    with False show ?thesis by (simp add: ilog2_def power_int_minus divide_simps)
  qed
  show "a < 2 powi (ilog2 a + 1)"
  proof (cases "1 \<le> a")
    case True
    then have "a < 2 ^ Suc (log2_up a)" using log2_up_bounds [of a] by simp
    moreover have "(2::rat) powi (int (log2_up a) + 1) = 2 ^ Suc (log2_up a)"
      by (simp add: power_int_add)
    ultimately show ?thesis using True by (simp add: ilog2_def)
  next
    case False
    with assms log2_down_bounds [of a] have "a * 2 ^ log2_down a < 2" by simp
    then have "a < 2 / 2 ^ log2_down a" by (simp add: divide_simps)
    moreover have "(2::rat) powi (- int (log2_down a) + 1) = 2 powi (- int (log2_down a)) * 2 powi 1"
      by (rule pow2_add)
    then have "(2::rat) powi (- int (log2_down a) + 1) = 2 / 2 ^ log2_down a"
      by (simp add: power_int_minus divide_simps)
    ultimately show ?thesis using False by (simp add: ilog2_def)
  qed
qed

lemma ilog2_unique:
  assumes "2 powi k \<le> a" and "a < 2 powi (k + 1)"
  shows "ilog2 a = k"
proof -
  have pos: "0 < a" using assms(1) by (metis less_le_trans zero_less_numeral zero_less_power_int)
  note b = ilog2_bounds [OF pos]
  have "(2::rat) powi k < 2 powi (ilog2 a + 1)" using assms(1) b(2) by simp
  then have "k < ilog2 a + 1" by (simp only: pow2_less_iff)
  moreover have "(2::rat) powi ilog2 a < 2 powi (k + 1)" using assms(2) b(1) by simp
  then have "ilog2 a < k + 1" by (simp only: pow2_less_iff)
  ultimately show ?thesis by simp
qed


subsection \<open>round_half_even\<close>

lemma round_half_even_of_int: "round_half_even (of_int n) = n"
  by (simp add: round_half_even_def)

lemma round_half_even_mono:
  assumes "x \<le> y"
  shows "round_half_even x \<le> round_half_even y"
proof (cases "\<lfloor>x\<rfloor> = \<lfloor>y\<rfloor>")
  case True
  with assms show ?thesis by (auto simp: round_half_even_def Let_def)
next
  case False
  with assms have "\<lfloor>x\<rfloor> < \<lfloor>y\<rfloor>" using floor_mono [of x y] by simp
  then have "\<lfloor>x\<rfloor> + 1 \<le> \<lfloor>y\<rfloor>" by simp
  moreover have "round_half_even x \<le> \<lfloor>x\<rfloor> + 1" by (simp add: round_half_even_def Let_def)
  moreover have "\<lfloor>y\<rfloor> \<le> round_half_even y" by (simp add: round_half_even_def Let_def)
  ultimately show ?thesis by linarith
qed

lemma round_half_even_lower: "of_int n \<le> x \<Longrightarrow> n \<le> round_half_even x"
  using round_half_even_mono [of "of_int n" x] by (simp add: round_half_even_of_int)

lemma round_half_even_upper: "x \<le> of_int n \<Longrightarrow> round_half_even x \<le> n"
  using round_half_even_mono [of x "of_int n"] by (simp add: round_half_even_of_int)

subsection \<open>round_mag\<close>

lemma quantum_pos: "0 < quantum a"
  by (simp add: quantum_def)

text \<open>A multiple of the quantum bounds the rounded value when it bounds the argument.\<close>

lemma round_mag_upper:
  assumes "a \<le> of_int n * quantum a"
  shows "round_mag a \<le> of_int n * quantum a"
proof -
  from assms have "a / quantum a \<le> of_int n"
    using quantum_pos [of a] by (simp add: divide_simps)
  then have "round_half_even (a / quantum a) \<le> n" by (rule round_half_even_upper)
  then have "(of_int (round_half_even (a / quantum a)) :: rat) \<le> of_int n" by simp
  then show ?thesis
    unfolding round_mag_def using quantum_pos [of a] by (simp add: mult_right_mono)
qed

lemma round_mag_lower:
  assumes "of_int n * quantum a \<le> a"
  shows "of_int n * quantum a \<le> round_mag a"
proof -
  from assms have "of_int n \<le> a / quantum a"
    using quantum_pos [of a] by (simp add: divide_simps)
  then have "n \<le> round_half_even (a / quantum a)" by (rule round_half_even_lower)
  then have "(of_int n :: rat) \<le> of_int (round_half_even (a / quantum a))" by simp
  then show ?thesis
    unfolding round_mag_def using quantum_pos [of a] by (simp add: mult_right_mono)
qed

lemma pow2_multiple:
  assumes "j \<le> k"
  shows "(2::rat) powi k = of_int (2 ^ nat (k - j)) * 2 powi j"
proof -
  have "(2::rat) powi k = 2 powi ((k - j) + j)" by simp
  also have "\<dots> = 2 powi (k - j) * 2 powi j" by (rule pow2_add)
  also have "(2::rat) powi (k - j) = 2 ^ nat (k - j)"
    using assms by (simp add: power_int_nonneg_exp)
  finally show ?thesis by simp
qed

lemma round_mag_le_pow2:
  assumes "a \<le> 2 powi k" and "max (ilog2 a - 52) (- 1074) \<le> k"
  shows "round_mag a \<le> 2 powi k"
proof -
  have "(2::rat) powi k = of_int (2 ^ nat (k - max (ilog2 a - 52) (- 1074))) * quantum a"
    unfolding quantum_def using assms(2) by (rule pow2_multiple)
  with assms(1) round_mag_upper [of a "2 ^ nat (k - max (ilog2 a - 52) (- 1074))"]
  show ?thesis by simp
qed

lemma round_mag_ge_pow2:
  assumes "2 powi k \<le> a" and "max (ilog2 a - 52) (- 1074) \<le> k"
  shows "2 powi k \<le> round_mag a"
proof -
  have "(2::rat) powi k = of_int (2 ^ nat (k - max (ilog2 a - 52) (- 1074))) * quantum a"
    unfolding quantum_def using assms(2) by (rule pow2_multiple)
  with assms(1) round_mag_lower [of "2 ^ nat (k - max (ilog2 a - 52) (- 1074))" a]
  show ?thesis by simp
qed

lemma round_mag_nonneg: "0 \<le> a \<Longrightarrow> 0 \<le> round_mag a"
  using round_mag_lower [of 0 a] by simp

lemma ilog2_mono:
  assumes "0 < a" and "a \<le> b"
  shows "ilog2 a \<le> ilog2 b"
proof -
  have "0 < b" using assms by simp
  have "(2::rat) powi ilog2 a \<le> a" using assms(1) by (rule ilog2_bounds)
  also have "a \<le> b" by fact
  also have "b < 2 powi (ilog2 b + 1)" using \<open>0 < b\<close> by (rule ilog2_bounds)
  finally have "ilog2 a < ilog2 b + 1" by (simp only: pow2_less_iff)
  then show ?thesis by simp
qed

lemma round_mag_mono:
  assumes "0 < a" and "a \<le> b"
  shows "round_mag a \<le> round_mag b"
proof -
  have bpos: "0 < b" using assms by simp
  define ea where "ea = max (ilog2 a - 52) (- 1074)"
  define eb where "eb = max (ilog2 b - 52) (- 1074)"
  have kk: "ilog2 a \<le> ilog2 b" using assms by (rule ilog2_mono)
  then have ee: "ea \<le> eb" by (simp add: ea_def eb_def)
  show ?thesis
  proof (cases "ea = eb")
    case True
    then have q: "quantum a = quantum b" by (simp add: quantum_def ea_def eb_def)
    have "a / quantum b \<le> b / quantum b"
      using assms(2) quantum_pos [of b] by (simp add: divide_right_mono)
    then have "round_half_even (a / quantum b) \<le> round_half_even (b / quantum b)"
      by (rule round_half_even_mono)
    then have "(of_int (round_half_even (a / quantum b)) :: rat)
                 \<le> of_int (round_half_even (b / quantum b))" by simp
    then show ?thesis
      unfolding round_mag_def q using quantum_pos [of b] by (simp add: mult_right_mono)
  next
    case False
    with ee have lt: "ea < eb" by simp
    then have eb_eq: "eb = ilog2 b - 52" by (auto simp: ea_def eb_def max_def split: if_splits)
    have k_lt: "ilog2 a + 1 \<le> ilog2 b" using lt eb_eq by (simp add: ea_def)
    define t where "t = max (ilog2 a + 1) ea"
    have t_le: "t \<le> ilog2 b" using k_lt lt eb_eq by (simp add: t_def)
    have "a < 2 powi (ilog2 a + 1)" using assms(1) by (rule ilog2_bounds)
    also have "\<dots> \<le> 2 powi t" by (simp add: pow2_le_iff t_def)
    finally have "a \<le> 2 powi t" by simp
    then have "round_mag a \<le> 2 powi t"
      by (rule round_mag_le_pow2) (simp add: t_def ea_def)
    also have "\<dots> \<le> 2 powi ilog2 b" using t_le by (simp add: pow2_le_iff)
    also have "\<dots> \<le> round_mag b"
      using ilog2_bounds(1) [OF bpos] by (rule round_mag_ge_pow2) (use eb_eq in \<open>simp add: eb_def\<close>)
    finally show ?thesis .
  qed
qed

subsection \<open>Overflow threshold\<close>

lemma ilog2_zero: "ilog2 0 = 0"
  by (simp add: ilog2_def log2_down_unfold [of 0])

lemma round_mag_zero: "round_mag 0 = 0"
  by (simp add: round_mag_def round_half_even_def)

lemma ilog2_less:
  assumes "0 \<le> a" and "a < 2 powi k" and "0 < k"
  shows "ilog2 a < k"
proof (cases "a = 0")
  case True
  then show ?thesis using assms(3) by (simp add: ilog2_zero)
next
  case False
  with assms have "0 < a" by simp
  then have "2 powi ilog2 a \<le> a" by (rule ilog2_bounds)
  also note assms(2)
  finally show ?thesis by (simp only: pow2_less_iff)
qed

lemma round_mag_mono_nonneg:
  assumes "0 \<le> a" and "a \<le> b"
  shows "round_mag a \<le> round_mag b"
proof (cases "a = 0")
  case True
  then show ?thesis using assms round_mag_nonneg [of b] by (simp add: round_mag_zero)
next
  case False
  with assms have "0 < a" by simp
  then show ?thesis using assms(2) by (rule round_mag_mono)
qed

lemma round_half_even_below_half:
  assumes "x < of_int n + 1/2"
  shows "round_half_even x \<le> n"
proof -
  have "x < of_int (n + 1)" using assms by simp
  then have "\<lfloor>x\<rfloor> < n + 1" by (simp only: floor_less_iff)
  then have f: "\<lfloor>x\<rfloor> \<le> n" by simp
  show ?thesis
  proof (cases "\<lfloor>x\<rfloor> = n")
    case True
    with assms have "x - of_int \<lfloor>x\<rfloor> < 1/2" by simp
    then show ?thesis using True by (simp add: round_half_even_def Let_def)
  next
    case False
    with f have "\<lfloor>x\<rfloor> + 1 \<le> n" by simp
    moreover have "round_half_even x \<le> \<lfloor>x\<rfloor> + 1" by (simp add: round_half_even_def Let_def)
    ultimately show ?thesis by linarith
  qed
qed

lemma round_half_even_above_half:
  assumes "of_int n - 1/2 \<le> x" and "even n"
  shows "n \<le> round_half_even x"
proof -
  have "of_int (n - 1) \<le> x" using assms(1) by simp
  then have f: "n - 1 \<le> \<lfloor>x\<rfloor>" by (simp only: le_floor_iff)
  show ?thesis
  proof (cases "\<lfloor>x\<rfloor> = n - 1")
    case True
    then have "odd \<lfloor>x\<rfloor>" using assms(2) by simp
    moreover have "1/2 \<le> x - of_int \<lfloor>x\<rfloor>" using assms(1) True by simp
    ultimately have "round_half_even x = \<lfloor>x\<rfloor> + 1"
      by (auto simp: round_half_even_def Let_def)
    with True show ?thesis by simp
  next
    case False
    with f have "n \<le> \<lfloor>x\<rfloor>" by simp
    moreover have "\<lfloor>x\<rfloor> \<le> round_half_even x" by (simp add: round_half_even_def Let_def)
    ultimately show ?thesis by linarith
  qed
qed

text \<open>The overflow threshold: halfway between the largest double and \<open>2 ^ 1024\<close>.\<close>

lemma quantum_top:
  assumes "2 powi 1023 \<le> a" and "a < 2 powi 1024"
  shows "quantum a = 2 powi 971"
proof -
  have "ilog2 a = 1023" using assms by (intro ilog2_unique) simp_all
  then show ?thesis by (simp add: quantum_def)
qed

lemma round_mag_overflow_iff:
  assumes "0 \<le> a"
  shows "2 powi 1024 \<le> round_mag a \<longleftrightarrow> 2 powi 1024 - 2 powi 970 \<le> a"
proof
  assume ge: "2 powi 1024 - 2 powi 970 \<le> a"
  show "2 powi 1024 \<le> round_mag a"
  proof (cases "a < 2 powi 1024")
    case False
    then have a: "2 powi 1024 \<le> a" by simp
    then have pos: "0 < a" by (rule less_le_trans [OF pow2_pos])
    have "(2::rat) powi 1024 < 2 powi (ilog2 a + 1)"
      using a ilog2_bounds(2) [OF pos] by (rule le_less_trans)
    then have k: "1024 \<le> ilog2 a" by (simp only: pow2_less_iff)
    have "(2::rat) powi 1024 \<le> 2 powi ilog2 a" using k by (simp only: pow2_le_iff)
    also have "\<dots> \<le> round_mag a"
      using ilog2_bounds(1) [OF pos] by (rule round_mag_ge_pow2) (use k in simp)
    finally show ?thesis .
  next
    case True
    have "(2::rat) powi 1023 \<le> 2 powi 1024 - 2 powi 970" by simp
    with ge have lo: "2 powi 1023 \<le> a" by linarith
    have q: "quantum a = 2 powi 971" using lo True by (rule quantum_top)
    have "(2::rat) powi 1024 - 2 powi 970 = (of_int (2 ^ 53) - 1/2) * 2 powi 971" by simp
    with ge have "(of_int (2 ^ 53) - 1/2) * 2 powi 971 \<le> a" by simp
    then have "of_int (2 ^ 53) - 1/2 \<le> a / 2 powi 971"
      by (simp add: pos_le_divide_eq)
    then have "2 ^ 53 \<le> round_half_even (a / 2 powi 971)"
      by (rule round_half_even_above_half) simp
    then have "(of_int (2 ^ 53) :: rat) \<le> of_int (round_half_even (a / 2 powi 971))"
      by (simp only: of_int_le_iff)
    then have "of_int (2 ^ 53) * 2 powi 971 \<le> round_mag a"
      unfolding round_mag_def q by (simp only: mult_le_cancel_right pow2_pos) simp
    moreover have "(of_int (2 ^ 53) :: rat) * 2 powi 971 = 2 powi 1024" by simp
    ultimately show ?thesis by simp
  qed
next
  assume ov: "2 powi 1024 \<le> round_mag a"
  show "2 powi 1024 - 2 powi 970 \<le> a"
  proof (rule ccontr)
    assume "\<not> 2 powi 1024 - 2 powi 970 \<le> a"
    then have lt: "a < 2 powi 1024 - 2 powi 970" by simp
    have "round_mag a < 2 powi 1024"
    proof (cases "a < 2 powi 1023")
      case True
      with assms have "ilog2 a < 1023" by (rule ilog2_less) simp
      then have "max (ilog2 a - 52) (- 1074) \<le> 1023" by simp
      with True have "round_mag a \<le> 2 powi 1023"
        by (intro round_mag_le_pow2) simp_all
      also have "(2::rat) powi 1023 < 2 powi 1024" by (simp add: pow2_less_iff)
      finally show ?thesis .
    next
      case False
      then have lo: "2 powi 1023 \<le> a" by simp
      have "(2::rat) powi 1024 - 2 powi 970 < 2 powi 1024" by simp
      with lt have hi: "a < 2 powi 1024" by linarith
      have q: "quantum a = 2 powi 971" using lo hi by (rule quantum_top)
      have "(2::rat) powi 1024 - 2 powi 970 = (of_int (2 ^ 53 - 1) + 1/2) * 2 powi 971" by simp
      with lt have "a < (of_int (2 ^ 53 - 1) + 1/2) * 2 powi 971" by simp
      then have "a / 2 powi 971 < of_int (2 ^ 53 - 1) + 1/2"
        by (simp add: pos_divide_less_eq)
      then have "round_half_even (a / 2 powi 971) \<le> 2 ^ 53 - 1"
        by (rule round_half_even_below_half)
      then have "(of_int (round_half_even (a / 2 powi 971)) :: rat) \<le> of_int (2 ^ 53 - 1)"
        by (simp only: of_int_le_iff)
      then have "round_mag a \<le> of_int (2 ^ 53 - 1) * 2 powi 971"
        unfolding round_mag_def q by (simp only: mult_le_cancel_right pow2_pos) simp
      also have "(of_int (2 ^ 53 - 1) :: rat) * 2 powi 971 < 2 powi 1024" by simp
      finally show ?thesis .
    qed
    with ov show False by simp
  qed
qed

subsection \<open>Rounding to a double\<close>

lemma round_double_cases:
  "round_double x =
     (if 2 powi 1024 - 2 powi 970 \<le> \<bar>x\<bar> then (if 0 < x then PInf else NInf)
      else Fin (sgn x * round_mag \<bar>x\<bar>))"
  using round_mag_overflow_iff [of "\<bar>x\<bar>"] by (simp add: round_double_def Let_def)

lemma round_double_nonneg:
  assumes "0 \<le> x"
  shows "round_double x = (if 2 powi 1024 - 2 powi 970 \<le> x then PInf else Fin (round_mag x))"
proof (cases "x = 0")
  case True
  then show ?thesis by (simp add: round_double_cases round_mag_zero)
next
  case False
  with assms have "0 < x" by simp
  then show ?thesis by (simp add: round_double_cases)
qed

lemma round_double_mono:
  assumes "0 \<le> x" and "x \<le> y"
  shows "float_le (round_double x) (round_double y)"
proof -
  have "0 \<le> y" using assms by simp
  have "round_mag x \<le> round_mag y" using assms by (rule round_mag_mono_nonneg)
  then show ?thesis
    using assms by (simp add: round_double_nonneg [OF assms(1)] round_double_nonneg [OF \<open>0 \<le> y\<close>])
qed

lemma round_double_ge_zero:
  assumes "0 \<le> x"
  shows "float_le (Fin 0) (round_double x)"
  using round_mag_nonneg [OF assms] by (simp add: round_double_nonneg [OF assms])

lemma of_int_token_limit: "(of_int token_limit :: rat) = (2 powi 1024 - 2 powi 970) * 1000000"
  by (simp add: token_limit_def)

lemma million_overflow_iff:
  "2 powi 1024 - 2 powi 970 \<le> \<bar>of_int p / 1000000 :: rat\<bar> \<longleftrightarrow> token_limit \<le> \<bar>p\<bar>"
proof -
  define T :: rat where "T = 2 powi 1024 - 2 powi 970"
  have abs: "\<bar>of_int p / 1000000 :: rat\<bar> = of_int \<bar>p\<bar> / 1000000" by simp
  have "T \<le> of_int \<bar>p\<bar> / 1000000 \<longleftrightarrow> T * 1000000 \<le> of_int \<bar>p\<bar>"
    by (rule pos_le_divide_eq) simp
  also have "T * 1000000 = of_int token_limit"
    unfolding T_def by (simp only: of_int_token_limit)
  also have "(of_int token_limit :: rat) \<le> of_int \<bar>p\<bar> \<longleftrightarrow> token_limit \<le> \<bar>p\<bar>"
    by (rule of_int_le_iff)
  finally show ?thesis unfolding T_def abs .
qed

lemma round_double_million:
  "round_double (of_int p / 1000000) =
     (if token_limit \<le> \<bar>p\<bar> then (if 0 < p then PInf else NInf)
      else Fin (sgn (of_int p) * round_mag (of_int \<bar>p\<bar> / 1000000)))"
proof -
  have s: "sgn (of_int p / 1000000 :: rat) = sgn (of_int p)"
    by (simp add: sgn_divide)
  have a: "\<bar>of_int p / 1000000 :: rat\<bar> = of_int \<bar>p\<bar> / 1000000" by simp
  have z: "(0 < (of_int p / 1000000 :: rat)) = (0 < p)" by simp
  have "round_double (of_int p / 1000000) =
     (if 2 powi 1024 - 2 powi 970 \<le> \<bar>of_int p / 1000000 :: rat\<bar>
      then (if 0 < (of_int p / 1000000 :: rat) then PInf else NInf)
      else Fin (sgn (of_int p / 1000000) * round_mag \<bar>of_int p / 1000000\<bar>))"
    by (rule round_double_cases)
  then show ?thesis
    unfolding million_overflow_iff s z unfolding a .
qed

lemma int_truediv_million:
  "int_truediv p 1000000 =
     (if token_limit \<le> \<bar>p\<bar> then Inl OverflowError
      else Inr (round_double (of_int p / 1000000)))"
proof (cases "token_limit \<le> \<bar>p\<bar>")
  case True
  then have "round_double (of_int p / 1000000) = PInf \<or> round_double (of_int p / 1000000) = NInf"
    by (simp add: round_double_million)
  with True show ?thesis by (auto simp: int_truediv_def)
next
  case False
  then have "round_double (of_int p / 1000000)
               = Fin (sgn (of_int p) * round_mag (of_int \<bar>p\<bar> / 1000000))"
    by (simp add: round_double_million)
  with False show ?thesis by (simp add: int_truediv_def)
qed

text \<open>Evaluating \<open>round_double\<close> on a positive number whose binary exponent is known.\<close>

lemma round_double_eval:
  assumes "2 powi k \<le> a" and "a < 2 powi (k + 1)" and "- 1022 \<le> k" and "k < 1023"
  shows "round_double a = Fin (of_int (round_half_even (a / 2 powi (k - 52))) * 2 powi (k - 52))"
proof -
  have pos: "0 < a" using assms(1) by (rule less_le_trans [OF pow2_pos])
  have k: "ilog2 a = k" using assms(1,2) by (rule ilog2_unique)
  have q: "quantum a = 2 powi (k - 52)" using assms(3) by (simp add: quantum_def k)
  have "k + 1 \<le> 1023" using assms(4) by simp
  then have "(2::rat) powi (k + 1) \<le> 2 powi 1023" by (simp only: pow2_le_iff)
  with assms(2) have "a < 2 powi 1023" by simp
  moreover have "(2::rat) powi 1023 \<le> 2 powi 1024 - 2 powi 970" by simp
  ultimately have "\<not> 2 powi 1024 - 2 powi 970 \<le> a" by linarith
  then show ?thesis
    using pos by (simp add: round_double_nonneg round_mag_def q)
qed

lemma floor_rat_numeral_div [simp]:
  "\<lfloor>numeral a / numeral b :: rat\<rfloor> = numeral a div numeral b"
  using floor_divide_of_int_eq [of "numeral a" "numeral b", where ?'a = rat] by simp

section \<open>Price resolution\<close>

lemma prefix_scan_find:
  "prefix_scan mk (map fst ps) =
     (case find (\<lambda>(k, e). prefix k mk \<or> prefix mk k) ps of None \<Rightarrow> mk | Some (k, e) \<Rightarrow> k)"
  by (induction ps) auto

lemma find_key_map_of:
  "find (\<lambda>(k, e). P k) ps = Some (k, e) \<Longrightarrow> map_of ps k = Some e \<and> P k"
  by (induction ps) (auto split: if_splits)

lemma resolve_in_refines:
  "(case spec_resolve aliases pricing mname of
      None \<Rightarrow> map_of pricing (resolve_in aliases pricing mname) = None
    | Some (k, e) \<Rightarrow> resolve_in aliases pricing mname = k \<and> map_of pricing k = Some e)"
proof -
  define name where "name = (case map_of aliases mname of Some c \<Rightarrow> c | None \<Rightarrow> mname)"
  show ?thesis
  proof (cases "map_of pricing name")
    case (Some e)
    then show ?thesis
      by (simp add: spec_resolve_def resolve_in_def name_def [symmetric])
  next
    case None
    show ?thesis
    proof (cases "find (\<lambda>(k, e). prefix k name \<or> prefix name k) pricing")
      case N: None
      with None show ?thesis
        by (simp add: spec_resolve_def resolve_in_def name_def [symmetric] prefix_scan_find)
    next
      case (Some ke)
      obtain k e where ke: "ke = (k, e)" by (cases ke)
      from Some ke have "map_of pricing k = Some e"
        using find_key_map_of [of "\<lambda>k. prefix k name \<or> prefix name k" pricing k e] by simp
      with None Some ke show ?thesis
        by (simp add: spec_resolve_def resolve_in_def name_def [symmetric] prefix_scan_find)
    qed
  qed
qed

text \<open>
  Claim C1. For every model name, \<open>get_cost\<close> resolves the name as the reference algorithm
  of the specification does: the alias table first, then an exact match in the price
  table, then the first entry in declared order whose key is a prefix of the name or has
  the name as a prefix. The costs of \<open>get_cost\<close> are those of the entry that the reference
  algorithm returns, and the key that \<open>get_cost\<close> settles on is the key of that entry.
\<close>

theorem get_cost_resolution:
  "get_cost model_name it ot =
     cost_of_entry (map_option snd (spec_resolve ALIASES PRICING model_name)) it ot
   \<and> (case spec_resolve ALIASES PRICING model_name of
        None \<Rightarrow> map_of PRICING (resolve_model_key model_name) = None
      | Some (k, e) \<Rightarrow> resolve_model_key model_name = k \<and> map_of PRICING k = Some e)"
  using resolve_in_refines [where aliases = ALIASES and pricing = PRICING and mname = model_name]
  by (auto simp: get_cost_def resolve_model_key_def split: option.splits)


lemma find_first_index:
  assumes "i < length ps" and "P (ps ! i)" and "\<forall>j<i. \<not> P (ps ! j)"
  shows "find P ps = Some (ps ! i)"
  using assms
proof (induction ps arbitrary: i)
  case Nil
  then show ?case by simp
next
  case (Cons x xs)
  show ?case
  proof (cases i)
    case 0
    with Cons.prems show ?thesis by simp
  next
    case (Suc n)
    with Cons.prems have "\<not> P x" by auto
    moreover have "find P xs = Some (xs ! n)"
    proof (rule Cons.IH)
      show "n < length xs" using Cons.prems(1) Suc by simp
      show "P (xs ! n)" using Cons.prems(2) Suc by simp
      show "\<forall>j<n. \<not> P (xs ! j)"
      proof (intro allI impI)
        fix j assume "j < n"
        then have "Suc j < i" using Suc by simp
        with Cons.prems(3) have "\<not> P ((x # xs) ! Suc j)" by blast
        then show "\<not> P (xs ! j)" by simp
      qed
    qed
    ultimately show ?thesis using Suc by simp
  qed
qed

lemma float_lit_15: "float_lit 15 = Fin 15"
  unfolding float_lit_def
  by (subst round_double_eval [where k = 3])
     (simp_all add: round_half_even_def Let_def power_int_minus)

lemma float_lit_60: "float_lit 60 = Fin 60"
  unfolding float_lit_def
  by (subst round_double_eval [where k = 5])
     (simp_all add: round_half_even_def Let_def power_int_minus)

lemma float_lit_3: "float_lit 3 = Fin 3"
  unfolding float_lit_def
  by (subst round_double_eval [where k = 1])
     (simp_all add: round_half_even_def Let_def power_int_minus)

lemma float_lit_12: "float_lit 12 = Fin 12"
  unfolding float_lit_def
  by (subst round_double_eval [where k = 3])
     (simp_all add: round_half_even_def Let_def power_int_minus)

lemma round_double_1: "round_double 1 = Fin 1"
  by (subst round_double_eval [where k = 0])
     (simp_all add: round_half_even_def Let_def power_int_minus)

lemma round_double_75: "round_double 75 = Fin 75"
  by (subst round_double_eval [where k = 6])
     (simp_all add: round_half_even_def Let_def power_int_minus)

lemma round_double_15: "round_double 15 = Fin 15"
  using float_lit_15 by (simp add: float_lit_def)

lemma round_double_60: "round_double 60 = Fin 60"
  using float_lit_60 by (simp add: float_lit_def)

lemma token_limit_gt: "1000000 < token_limit"
  by (simp add: token_limit_def)

text \<open>
  Claim C10. When the name (after alias replacement) has no exact match, \<open>get_cost\<close> uses
  the entry declared earliest among those that prefix-match it, whatever the length of
  the keys: the entry at index \<open>i\<close> as soon as it matches and none before it does. The
  instance below is \<open>"o1-mini-2025"\<close>: it is priced with the entry \<open>"o1"\<close>, \<open>(15.00, 60.00)\<close>,
  declared before the longer matching key \<open>"o1-mini"\<close>, \<open>(3.00, 12.00)\<close>.
\<close>

theorem earliest_declared_match_wins:
  assumes "name = (case map_of ALIASES mname of None \<Rightarrow> mname | Some c \<Rightarrow> c)"
    and "map_of PRICING name = None"
    and "i < length PRICING"
    and "prefix (fst (PRICING ! i)) name \<or> prefix name (fst (PRICING ! i))"
    and "\<forall>j<i. \<not> (prefix (fst (PRICING ! j)) name \<or> prefix name (fst (PRICING ! j)))"
  shows "resolve_model_key mname = fst (PRICING ! i)
       \<and> get_cost mname it ot = cost_of_entry (Some (snd (PRICING ! i))) it ot"
proof -
  let ?P = "\<lambda>(k, e :: pyfloat \<times> pyfloat). prefix k name \<or> prefix name k"
  have "find ?P PRICING = Some (PRICING ! i)"
    using assms(3,4,5) by (intro find_first_index) (auto simp: case_prod_beta)
  then have f: "find ?P PRICING = Some (fst (PRICING ! i), snd (PRICING ! i))" by simp
  then have m: "map_of PRICING (fst (PRICING ! i)) = Some (snd (PRICING ! i))"
    using find_key_map_of [of "\<lambda>k. prefix k name \<or> prefix name k" PRICING] by blast
  have r: "resolve_model_key mname = fst (PRICING ! i)"
    using assms(1,2) f by (simp add: resolve_model_key_def resolve_in_def prefix_scan_find case_prod_beta)
  show ?thesis using r m by (simp add: get_cost_def)
qed

lemma all_less_take:
  "i \<le> length xs \<Longrightarrow> (\<forall>j<i. Q (xs ! j)) \<longleftrightarrow> list_all Q (take i xs)"
  by (auto simp: list_all_length)

theorem earliest_declared_match_wins_witness:
  "resolve_model_key ''o1-mini-2025'' = ''o1''
   \<and> get_cost ''o1-mini-2025'' 1000000 1000000 = Inr (Fin 15, Fin 60, Fin 75)
   \<and> prefix ''o1-mini'' ''o1-mini-2025''
   \<and> length ''o1'' < length ''o1-mini''
   \<and> map_of PRICING ''o1-mini'' = Some (Fin 3, Fin 12)"
proof -
  have a: "''o1-mini-2025'' = (case map_of ALIASES ''o1-mini-2025'' of None \<Rightarrow> ''o1-mini-2025'' | Some c \<Rightarrow> c)"
    by (simp add: ALIASES_def)
  have b: "map_of PRICING ''o1-mini-2025'' = None" by (simp add: PRICING_def)
  have c: "12 < length PRICING" by (simp add: PRICING_def)
  have e: "PRICING ! 12 = (''o1'', (float_lit 15.00, float_lit 60.00))" by (simp add: PRICING_def)
  have d: "prefix (fst (PRICING ! 12)) ''o1-mini-2025'' \<or> prefix ''o1-mini-2025'' (fst (PRICING ! 12))"
    unfolding e by simp
  have "list_all (\<lambda>ke. \<not> (prefix (fst ke) ''o1-mini-2025'' \<or> prefix ''o1-mini-2025'' (fst ke))) (take 12 PRICING)"
    by (simp add: PRICING_def)
  then have f: "\<forall>j<12. \<not> (prefix (fst (PRICING ! j)) ''o1-mini-2025'' \<or> prefix ''o1-mini-2025'' (fst (PRICING ! j)))"
    using c all_less_take [of 12 PRICING "\<lambda>ke. \<not> (prefix (fst ke) ''o1-mini-2025'' \<or> prefix ''o1-mini-2025'' (fst ke))"]
    by simp
  have g: "int_truediv 1000000 1000000 = Inr (Fin 1)"
    using token_limit_gt by (simp add: int_truediv_million round_double_1)
  from earliest_declared_match_wins [OF a b c d f, of 1000000 1000000]
  have "resolve_model_key ''o1-mini-2025'' = ''o1''"
    and "get_cost ''o1-mini-2025'' 1000000 1000000 = Inr (Fin 15, Fin 60, Fin 75)"
    unfolding e by (simp_all add: cost_of_entry_def Let_def g float_lit_15 float_lit_60 round_double_15 round_double_60 round_double_75)
  moreover have "map_of PRICING ''o1-mini'' = Some (Fin 3, Fin 12)"
    by (simp add: PRICING_def float_lit_3 float_lit_12)
  ultimately show ?thesis by simp
qed

lemma resolve_claude_sonnet_alias:
  "resolve_model_key ''claude-3.5-sonnet'' = ''claude-3-5-sonnet-20241022''"
  "resolve_model_key ''claude-3-5-sonnet-20241022'' = ''claude-3-5-sonnet-20241022''"
  by (simp_all add: resolve_model_key_def resolve_in_def ALIASES_def PRICING_def)

lemma resolve_claude_haiku_alias:
  "resolve_model_key ''claude-3.5-haiku'' = ''claude-3-5-haiku-20241022''"
  "resolve_model_key ''claude-3-5-haiku-20241022'' = ''claude-3-5-haiku-20241022''"
  by (simp_all add: resolve_model_key_def resolve_in_def ALIASES_def PRICING_def)

lemma resolve_gpt4o_alias:
  "resolve_model_key ''gpt-4o-2024-08-06'' = ''gpt-4o''"
  "resolve_model_key ''gpt-4o-2024-05-13'' = ''gpt-4o''"
  "resolve_model_key ''gpt-4o'' = ''gpt-4o''"
  by (simp_all add: resolve_model_key_def resolve_in_def ALIASES_def PRICING_def)

lemma canonical_priced:
  "map_of PRICING ''claude-3-5-sonnet-20241022'' = Some (float_lit 3, float_lit 15)"
  "map_of PRICING ''claude-3-5-haiku-20241022'' = Some (float_lit (4/5), float_lit 4)"
  "map_of PRICING ''gpt-4o'' = Some (float_lit (5/2), float_lit 10)"
  by (simp_all add: PRICING_def)


text \<open>
  Claim C8. For every alias of the alias table and all token counts, \<open>get_cost\<close> on the
  alias returns what \<open>get_cost\<close> on its canonical id returns, and both use the price pair
  of the canonical id. The instance below is the alias \<open>"claude-3.5-sonnet"\<close> of
  \<open>"claude-3-5-sonnet-20241022"\<close>.
\<close>

theorem alias_same_cost:
  assumes "(alias, canonical) \<in> set ALIASES"
  shows "get_cost alias it ot = get_cost canonical it ot
       \<and> map_of PRICING (resolve_model_key alias) = map_of PRICING canonical
       \<and> map_of PRICING canonical \<noteq> None"
proof -
  from assms have
    "(alias = ''claude-3.5-sonnet'' \<and> canonical = ''claude-3-5-sonnet-20241022'')
     \<or> (alias = ''claude-3.5-haiku'' \<and> canonical = ''claude-3-5-haiku-20241022'')
     \<or> (alias = ''gpt-4o-2024-08-06'' \<and> canonical = ''gpt-4o'')
     \<or> (alias = ''gpt-4o-2024-05-13'' \<and> canonical = ''gpt-4o'')"
    unfolding ALIASES_def by (simp only: set_simps insert_iff empty_iff prod.inject simp_thms)
  then have "resolve_model_key alias = canonical \<and> resolve_model_key canonical = canonical
               \<and> map_of PRICING canonical \<noteq> None"
  proof (elim disjE conjE)
    assume "alias = ''claude-3.5-sonnet''" "canonical = ''claude-3-5-sonnet-20241022''"
    then show ?thesis by (simp only: resolve_claude_sonnet_alias canonical_priced) simp
  next
    assume "alias = ''claude-3.5-haiku''" "canonical = ''claude-3-5-haiku-20241022''"
    then show ?thesis by (simp only: resolve_claude_haiku_alias canonical_priced) simp
  next
    assume "alias = ''gpt-4o-2024-08-06''" "canonical = ''gpt-4o''"
    then show ?thesis by (simp only: resolve_gpt4o_alias canonical_priced) simp
  next
    assume "alias = ''gpt-4o-2024-05-13''" "canonical = ''gpt-4o''"
    then show ?thesis by (simp only: resolve_gpt4o_alias canonical_priced) simp
  qed
  then show ?thesis by (simp add: get_cost_def)
qed

theorem alias_same_cost_witness:
  "(''claude-3.5-sonnet'', ''claude-3-5-sonnet-20241022'') \<in> set ALIASES
   \<and> get_cost ''claude-3.5-sonnet'' 1000 500 = get_cost ''claude-3-5-sonnet-20241022'' 1000 500
   \<and> map_of PRICING (resolve_model_key ''claude-3.5-sonnet'') = Some (Fin 3, Fin 15)
   \<and> map_of PRICING (resolve_model_key ''claude-3-5-sonnet-20241022'') = Some (Fin 3, Fin 15)"
proof -
  have a: "(''claude-3.5-sonnet'', ''claude-3-5-sonnet-20241022'') \<in> set ALIASES"
    by (simp add: ALIASES_def)
  have p: "map_of PRICING ''claude-3-5-sonnet-20241022'' = Some (Fin 3, Fin 15)"
    by (simp only: canonical_priced float_lit_3 float_lit_15)
  from alias_same_cost [OF a, of 1000 500] a p
  show ?thesis by (simp only: resolve_claude_sonnet_alias)
qed


section \<open>Costs\<close>

subsection \<open>Prices\<close>

lemma round_double_positive_finite:
  assumes "1 / 16 \<le> q" and "q \<le> 128"
  shows "positive_finite (round_double q)"
proof -
  have pos: "0 < q" using assms(1) by simp
  have "(2::rat) powi (- 4) \<le> q" using assms(1) by (simp add: power_int_minus)
  also have "q < 2 powi (ilog2 q + 1)" using pos by (rule ilog2_bounds)
  finally have "- 4 < ilog2 q + 1" by (simp only: pow2_less_iff)
  then have k: "- 4 \<le> ilog2 q" by simp
  have "2 powi ilog2 q \<le> round_mag q"
    using ilog2_bounds(1) [OF pos] by (rule round_mag_ge_pow2) (use k in simp)
  then have r: "0 < round_mag q" by (rule less_le_trans [OF pow2_pos])
  have "q < 2 powi 1024 - 2 powi 970" using assms(2) by simp
  then show ?thesis using pos r by (simp add: round_double_nonneg)
qed

lemma float_lit_positive_finite:
  "1 / 16 \<le> q \<Longrightarrow> q \<le> 128 \<Longrightarrow> positive_finite (float_lit q)"
  unfolding float_lit_def by (rule round_double_positive_finite)

lemma PRICING_positive_finite:
  "list_all (\<lambda>(k, p_in, p_out). positive_finite p_in \<and> positive_finite p_out) PRICING"
  by (simp add: PRICING_def float_lit_positive_finite)

lemma priced_positive_finite:
  assumes "map_of PRICING k = Some (p_in, p_out)"
  shows "\<exists>x y. p_in = Fin x \<and> p_out = Fin y \<and> 0 < x \<and> 0 < y"
proof -
  from assms have "(k, p_in, p_out) \<in> set PRICING" by (rule map_of_SomeD)
  with PRICING_positive_finite have "positive_finite p_in \<and> positive_finite p_out"
    by (auto simp: list_all_iff)
  then show ?thesis by (cases p_in; cases p_out) simp_all
qed


subsection \<open>Monotonicity of the float operations on non-negative floats\<close>

lemma round_double_le_PInf: "0 \<le> x \<Longrightarrow> float_le (round_double x) PInf"
  by (simp add: round_double_nonneg)

lemma float_add_mono:
  assumes "float_le (Fin 0) a" and "float_le (Fin 0) b" and "float_le a a'" and "float_le b b'"
  shows "float_le (float_add a b) (float_add a' b') \<and> float_le (Fin 0) (float_add a b)"
  using assms
  by (cases a; cases b; cases a'; cases b')
     (simp_all add: round_double_mono round_double_ge_zero round_double_le_PInf)

lemma float_mul_mono:
  assumes "0 \<le> q" and "q \<le> q'" and "0 < x"
  shows "float_le (float_mul (Fin q) (Fin x)) (float_mul (Fin q') (Fin x))
       \<and> float_le (Fin 0) (float_mul (Fin q) (Fin x))"
proof -
  have "0 \<le> q * x" using assms by simp
  moreover have "q * x \<le> q' * x" using assms by (simp add: mult_right_mono)
  ultimately show ?thesis by (simp add: round_double_mono round_double_ge_zero)
qed

lemma round_double_zero: "round_double 0 = Fin 0"
  by (simp add: round_double_nonneg round_mag_zero)

lemma int_truediv_million_nonneg:
  assumes "0 \<le> n" and "n < token_limit"
  shows "int_truediv n 1000000 = Inr (Fin (round_mag (of_int n / 1000000)))"
proof (cases "n = 0")
  case True
  then show ?thesis using assms by (simp add: int_truediv_million round_double_zero round_mag_zero)
next
  case False
  with assms show ?thesis by (simp add: int_truediv_million round_double_million)
qed

lemma cost_of_entry_Some:
  "cost_of_entry (Some (p_in, p_out)) it ot =
     (if token_limit \<le> \<bar>it\<bar> \<or> token_limit \<le> \<bar>ot\<bar> then Inl OverflowError
      else Inr (float_mul (round_double (of_int it / 1000000)) p_in,
                float_mul (round_double (of_int ot / 1000000)) p_out,
                float_add (float_mul (round_double (of_int it / 1000000)) p_in)
                          (float_mul (round_double (of_int ot / 1000000)) p_out)))"
  by (simp add: cost_of_entry_def int_truediv_million Let_def)

lemma cost_of_entry_None: "cost_of_entry None it ot = Inr (Fin 0, Fin 0, Fin 0)"
  by (simp add: cost_of_entry_def)


lemma round_double_million_nonneg:
  assumes "0 \<le> n" and "n < token_limit"
  shows "round_double (of_int n / 1000000) = Fin (round_mag (of_int n / 1000000))"
  using int_truediv_million_nonneg [OF assms] assms by (simp add: int_truediv_million)

text \<open>
  Claim C9. For every model name and all non-negative token counts, the three costs that
  \<open>get_cost\<close> returns are non-negative and do not decrease when the token counts increase:
  whenever \<open>get_cost\<close> returns costs at the larger counts, it returns costs at the smaller
  ones, these are at least \<open>0.0\<close> and at most the costs at the larger counts (taking equal
  counts gives the non-negativity of every returned cost).
\<close>

theorem cost_nonneg_monotone:
  assumes "0 \<le> it" and "it \<le> it'" and "0 \<le> ot" and "ot \<le> ot'"
    and "get_cost mname it' ot' = Inr (a', b', c')"
  shows "\<exists>a b c. get_cost mname it ot = Inr (a, b, c)
           \<and> float_le (Fin 0) a \<and> float_le (Fin 0) b \<and> float_le (Fin 0) c
           \<and> float_le a a' \<and> float_le b b' \<and> float_le c c'"
proof (cases "map_of PRICING (resolve_model_key mname)")
  case None
  with assms(5) show ?thesis by (auto simp: get_cost_def cost_of_entry_None)
next
  case (Some entry)
  obtain p_in p_out where entry: "entry = (p_in, p_out)" by (cases entry)
  from Some entry obtain x y where p: "p_in = Fin x" "p_out = Fin y" "0 < x" "0 < y"
    using priced_positive_finite [of "resolve_model_key mname" p_in p_out] by auto
  have it'0: "0 \<le> it'" and ot'0: "0 \<le> ot'" using assms(1-4) by simp_all
  from assms(5) Some entry have lim': "it' < token_limit" "ot' < token_limit"
    using it'0 ot'0 by (auto simp: get_cost_def cost_of_entry_Some split: if_splits)
  then have lim: "it < token_limit" "ot < token_limit" using assms(2,4) by simp_all
  define qi where "qi = round_mag (of_int it / 1000000)"
  define qi' where "qi' = round_mag (of_int it' / 1000000)"
  define qo where "qo = round_mag (of_int ot / 1000000)"
  define qo' where "qo' = round_mag (of_int ot' / 1000000)"
  have r: "round_double (of_int it / 1000000) = Fin qi"
          "round_double (of_int it' / 1000000) = Fin qi'"
          "round_double (of_int ot / 1000000) = Fin qo"
          "round_double (of_int ot' / 1000000) = Fin qo'"
    unfolding qi_def qi'_def qo_def qo'_def
    using assms(1,3) it'0 ot'0 lim lim' by (simp_all add: round_double_million_nonneg)
  have q: "0 \<le> qi" "qi \<le> qi'" "0 \<le> qo" "qo \<le> qo'"
    unfolding qi_def qi'_def qo_def qo'_def
    using assms(1-4) by (simp_all add: round_mag_nonneg round_mag_mono_nonneg divide_right_mono)
  define a where "a = float_mul (Fin qi) (Fin x)"
  define b where "b = float_mul (Fin qo) (Fin y)"
  have g: "get_cost mname it ot = Inr (a, b, float_add a b)"
    using Some entry lim assms(1,3) by (simp add: get_cost_def cost_of_entry_Some r p a_def b_def)
  have g': "get_cost mname it' ot'
              = Inr (float_mul (Fin qi') (Fin x), float_mul (Fin qo') (Fin y),
                     float_add (float_mul (Fin qi') (Fin x)) (float_mul (Fin qo') (Fin y)))"
    using Some entry lim' it'0 ot'0 by (simp add: get_cost_def cost_of_entry_Some r p)
  with assms(5) have e: "a' = float_mul (Fin qi') (Fin x)" "b' = float_mul (Fin qo') (Fin y)"
    "c' = float_add a' b'" by auto
  have ma: "float_le a a' \<and> float_le (Fin 0) a"
    unfolding a_def e using q(1,2) p(3) by (rule float_mul_mono)
  have mb: "float_le b b' \<and> float_le (Fin 0) b"
    unfolding b_def e using q(3,4) p(4) by (rule float_mul_mono)
  have mc: "float_le (float_add a b) (float_add a' b') \<and> float_le (Fin 0) (float_add a b)"
    using ma mb by (intro float_add_mono) simp_all
  show ?thesis using g ma mb mc e(3) by simp
qed

subsection \<open>Concrete float values\<close>

lemma round_double_1_1000: "round_double (1 / 1000) = Fin (1152921504606847 / 1152921504606846976)"
  by (subst round_double_eval [where k = "- 10"])
     (simp_all add: round_half_even_def Let_def power_int_minus)

lemma round_double_1_2000: "round_double (1 / 2000) = Fin (1152921504606847 / 2305843009213693952)"
  by (subst round_double_eval [where k = "- 11"])
     (simp_all add: round_half_even_def Let_def power_int_minus)

lemma round_double_1_400: "round_double (1 / 400) = Fin (5764607523034235 / 2305843009213693952)"
  by (subst round_double_eval [where k = "- 9"])
     (simp_all add: round_half_even_def Let_def power_int_minus)

lemma round_double_1_200: "round_double (1 / 200) = Fin (5764607523034235 / 1152921504606846976)"
  by (subst round_double_eval [where k = "- 8"])
     (simp_all add: round_half_even_def Let_def power_int_minus)

lemma round_double_3_400: "round_double (3 / 400) = Fin (1080863910568919 / 144115188075855872)"
  by (subst round_double_eval [where k = "- 8"])
     (simp_all add: round_half_even_def Let_def power_int_minus)

lemma round_double_5_2: "round_double (5 / 2) = Fin (5 / 2)"
  by (subst round_double_eval [where k = 1])
     (simp_all add: round_half_even_def Let_def power_int_minus)

lemma round_double_10: "round_double 10 = Fin 10"
  by (subst round_double_eval [where k = 3])
     (simp_all add: round_half_even_def Let_def power_int_minus)

lemma input_cost_gpt4o:
  "round_double (5764607523034235 / 2305843009213693952)
     = Fin (5764607523034235 / 2305843009213693952)"
  by (subst round_double_eval [where k = "- 9"])
     (simp_all add: round_half_even_def Let_def power_int_minus)

lemma output_cost_gpt4o:
  "round_double (5764607523034235 / 1152921504606846976)
     = Fin (5764607523034235 / 1152921504606846976)"
  by (subst round_double_eval [where k = "- 8"])
     (simp_all add: round_half_even_def Let_def power_int_minus)

lemma total_cost_gpt4o:
  "round_double (17293822569102705 / 2305843009213693952)
     = Fin (1080863910568919 / 144115188075855872)"
  by (subst round_double_eval [where k = "- 8"])
     (simp_all add: round_half_even_def Let_def power_int_minus)

lemma token_limit_bounds: "1000 < token_limit" "500 < token_limit" "100 < token_limit"
  "token_limit \<le> 10 ^ 315" "token_limit \<le> 10 ^ 400"
  by (simp_all add: token_limit_def)



lemma resolve_unknown: "resolve_model_key ''unknown-model-xyz'' = ''unknown-model-xyz''"
  by (simp add: resolve_model_key_def resolve_in_def ALIASES_def PRICING_def)

lemma unpriced_unknown: "map_of PRICING ''unknown-model-xyz'' = None"
  by (simp add: PRICING_def)

lemma get_cost_unknown: "get_cost ''unknown-model-xyz'' 100 100 = Inr (Fin 0, Fin 0, Fin 0)"
  by (simp add: get_cost_def resolve_unknown unpriced_unknown cost_of_entry_None)

lemma float_lit_gpt4o: "float_lit (5 / 2) = Fin (5 / 2)" "float_lit 10 = Fin 10"
  by (simp_all add: float_lit_def round_double_5_2 round_double_10)

lemma float_lit_costs:
  "float_lit (1 / 400) = Fin (5764607523034235 / 2305843009213693952)"
  "float_lit (1 / 200) = Fin (5764607523034235 / 1152921504606846976)"
  "float_lit (3 / 400) = Fin (1080863910568919 / 144115188075855872)"
  by (simp_all add: float_lit_def round_double_1_400 round_double_1_200 round_double_3_400)

lemma resolve_o1_mini_2025: "resolve_model_key ''o1-mini-2025'' = ''o1''"
  by (simp add: resolve_model_key_def resolve_in_def ALIASES_def PRICING_def)

lemma priced_o1: "map_of PRICING ''o1'' = Some (float_lit 15, float_lit 60)"
  by (simp add: PRICING_def)

theorem cost_nonneg_monotone_witness:
  "(0::int) \<le> 1000 \<and> (1000::int) \<le> 1000000 \<and> (0::int) \<le> 500 \<and> (500::int) \<le> 1000000
   \<and> get_cost ''o1-mini-2025'' 1000000 1000000 = Inr (Fin 15, Fin 60, Fin 75)
   \<and> (\<exists>a b c. get_cost ''o1-mini-2025'' 1000 500 = Inr (a, b, c)
          \<and> float_le (Fin 0) a \<and> float_le (Fin 0) b \<and> float_le (Fin 0) c
          \<and> float_le a (Fin 15) \<and> float_le b (Fin 60) \<and> float_le c (Fin 75))"
proof -
  have g: "get_cost ''o1-mini-2025'' 1000000 1000000 = Inr (Fin 15, Fin 60, Fin 75)"
    using token_limit_gt
    by (simp add: get_cost_def resolve_o1_mini_2025 priced_o1 cost_of_entry_Some
          float_lit_15 float_lit_60 round_double_1 round_double_15 round_double_60 round_double_75)
  from cost_nonneg_monotone [of 1000 1000000 500 1000000, OF _ _ _ _ g]
  show ?thesis using g by simp
qed

section \<open>Tracking and dispatch\<close>

subsection \<open>Dispatch\<close>

lemma post_and_discard_absorbed:
  assumes "absorbed_outcome (post0 req)"
  shows "post_and_discard post0 req sent = (Inr (), sent @ [req])"
proof (cases "post0 req")
  case (Status s)
  then show ?thesis by (simp add: post_and_discard_def raise_for_status_def)
next
  case (Raised e)
  with assms show ?thesis by (simp add: post_and_discard_def)
qed

lemma track_returns:
  assumes "get_cost mname it ot = Inr (a, b, c)" and "\<And>req. absorbed_outcome (post rt req)"
  shows "\<exists>ev sent'. track rt self mname it ot uid feat dur meta sent = (Inr ev, sent')
           \<and> input_cost ev = a \<and> output_cost ev = b \<and> total_cost ev = c
           \<and> user_id ev = str_or uid (default_user_id self)
           \<and> feature ev = str_or feat (default_feature self)"
proof (cases "client self")
  case None
  with assms(1) show ?thesis by (simp add: track_def)
next
  case (Some cl)
  with assms(1) show ?thesis
    by (simp add: track_def Let_def send_event_def post_and_discard_absorbed [OF assms(2)])
qed




text \<open>
  The event and the requests of a call of \<open>track\<close> whose costs \<open>get_cost\<close> returns, when the
  POST is absorbed.
\<close>

lemma track_event:
  assumes "get_cost mname it ot = Inr (a, b, c)" and "\<And>req. absorbed_outcome (post rt req)"
  shows "track rt self mname it ot uid feat dur meta sent =
     (Inr \<lparr>event_id = uuid4 rt, timestamp = utc_now rt, model = mname,
           input_tokens = it, output_tokens = ot,
           input_cost = a, output_cost = b, total_cost = c,
           duration_ms = dur,
           user_id = str_or uid (default_user_id self),
           feature = str_or feat (default_feature self),
           metadata = dict_or_empty meta\<rparr>,
      case client self of
        None \<Rightarrow> sent
      | Some cl \<Rightarrow>
          sent @ [\<lparr>url = base_url cl @ ''/v1/events'',
                   authorization = ''Bearer '' @ client_api_key cl,
                   json = Single
                     \<lparr>event_id = uuid4 rt, timestamp = utc_now rt, model = mname,
                      input_tokens = it, output_tokens = ot,
                      input_cost = a, output_cost = b, total_cost = c,
                      duration_ms = dur,
                      user_id = str_or uid (default_user_id self),
                      feature = str_or feat (default_feature self),
                      metadata = dict_or_empty meta\<rparr>\<rparr>])"
proof (cases "client self")
  case None
  with assms(1) show ?thesis by (simp add: track_def)
next
  case (Some cl)
  with assms(1) show ?thesis
    by (simp add: track_def Let_def send_event_def post_and_discard_absorbed [OF assms(2)])
qed

text \<open>
  Claim C2, as amended. For every model that resolves to a price entry \<open>(p_in, p_out)\<close>
  and all non-negative token counts below \<open>token_limit\<close>, \<open>get_cost\<close> returns
  \<open>input_cost = input_tokens / 1_000_000 * p_in\<close> and
  \<open>output_cost = output_tokens / 1_000_000 * p_out\<close>, each operation being the float
  operation, and \<open>total_cost\<close> is the float sum of the two costs it returns; at
  \<open>token_limit\<close> or more the division raises \<open>OverflowError\<close>. Below the limit \<open>track\<close>
  returns the event that carries its arguments and exactly these three costs, as long as
  the dispatcher's POST answers with a response or an \<open>httpx.HTTPError\<close>. The instance
  below is \<open>track("gpt-4o", 1000, 500)\<close>, whose event has the costs \<open>0.0025\<close>, \<open>0.005\<close> and
  \<open>0.0075\<close>.
\<close>

theorem get_cost_formula:
  assumes "map_of PRICING (resolve_model_key mname) = Some (p_in, p_out)"
    and "0 \<le> it" and "0 \<le> ot"
  shows "get_cost mname it ot =
     (if token_limit \<le> it \<or> token_limit \<le> ot then Inl OverflowError
      else Inr (float_mul (round_double (of_int it / 1000000)) p_in,
                float_mul (round_double (of_int ot / 1000000)) p_out,
                float_add (float_mul (round_double (of_int it / 1000000)) p_in)
                          (float_mul (round_double (of_int ot / 1000000)) p_out)))
   \<and> (it < token_limit \<and> ot < token_limit \<and> (\<forall>req. absorbed_outcome (post rt req))
        \<longrightarrow> fst (track rt self mname it ot uid feat dur meta sent) =
             Inr \<lparr>event_id = uuid4 rt, timestamp = utc_now rt, model = mname,
                  input_tokens = it, output_tokens = ot,
                  input_cost = float_mul (round_double (of_int it / 1000000)) p_in,
                  output_cost = float_mul (round_double (of_int ot / 1000000)) p_out,
                  total_cost =
                    float_add (float_mul (round_double (of_int it / 1000000)) p_in)
                              (float_mul (round_double (of_int ot / 1000000)) p_out),
                  duration_ms = dur,
                  user_id = str_or uid (default_user_id self),
                  feature = str_or feat (default_feature self),
                  metadata = dict_or_empty meta\<rparr>)"
proof -
  have g: "get_cost mname it ot =
     (if token_limit \<le> it \<or> token_limit \<le> ot then Inl OverflowError
      else Inr (float_mul (round_double (of_int it / 1000000)) p_in,
                float_mul (round_double (of_int ot / 1000000)) p_out,
                float_add (float_mul (round_double (of_int it / 1000000)) p_in)
                          (float_mul (round_double (of_int ot / 1000000)) p_out)))"
    using assms by (simp add: get_cost_def cost_of_entry_Some)
  show ?thesis
  proof (intro conjI impI)
    show "get_cost mname it ot =
     (if token_limit \<le> it \<or> token_limit \<le> ot then Inl OverflowError
      else Inr (float_mul (round_double (of_int it / 1000000)) p_in,
                float_mul (round_double (of_int ot / 1000000)) p_out,
                float_add (float_mul (round_double (of_int it / 1000000)) p_in)
                          (float_mul (round_double (of_int ot / 1000000)) p_out)))"
      by (rule g)
  next
    assume h: "it < token_limit \<and> ot < token_limit \<and> (\<forall>req. absorbed_outcome (post rt req))"
    then have a: "\<And>req. absorbed_outcome (post rt req)" by simp
    from h g have g': "get_cost mname it ot =
        Inr (float_mul (round_double (of_int it / 1000000)) p_in,
             float_mul (round_double (of_int ot / 1000000)) p_out,
             float_add (float_mul (round_double (of_int it / 1000000)) p_in)
                       (float_mul (round_double (of_int ot / 1000000)) p_out))"
      by simp
    show "fst (track rt self mname it ot uid feat dur meta sent) =
             Inr \<lparr>event_id = uuid4 rt, timestamp = utc_now rt, model = mname,
                  input_tokens = it, output_tokens = ot,
                  input_cost = float_mul (round_double (of_int it / 1000000)) p_in,
                  output_cost = float_mul (round_double (of_int ot / 1000000)) p_out,
                  total_cost =
                    float_add (float_mul (round_double (of_int it / 1000000)) p_in)
                              (float_mul (round_double (of_int ot / 1000000)) p_out),
                  duration_ms = dur,
                  user_id = str_or uid (default_user_id self),
                  feature = str_or feat (default_feature self),
                  metadata = dict_or_empty meta\<rparr>"
      by (simp add: track_event [OF g' a])
  qed
qed

theorem get_cost_formula_witness:
  "map_of PRICING (resolve_model_key ''gpt-4o'') = Some (float_lit 2.50, float_lit 10.00)
   \<and> (0::int) \<le> 1000 \<and> (0::int) \<le> 500 \<and> 1000 < token_limit \<and> 500 < token_limit
   \<and> (\<forall>req. absorbed_outcome (Status 200))
   \<and> get_cost ''gpt-4o'' 1000 500 = Inr (float_lit 0.0025, float_lit 0.005, float_lit 0.0075)
   \<and> fst (track \<lparr>lib_call = (\<lambda>n args. Inr Stream), post = (\<lambda>req. Status 200),
                  elapsed_ms = 0, uuid4 = 1, utc_now = 2\<rparr>
                 (CostTracker_init None ''https://api.cost-gpt.com'' None None)
                 ''gpt-4o'' 1000 500 None None None None [])
       = Inr \<lparr>event_id = 1, timestamp = 2, model = ''gpt-4o'',
              input_tokens = 1000, output_tokens = 500,
              input_cost = float_lit 0.0025, output_cost = float_lit 0.005,
              total_cost = float_lit 0.0075,
              duration_ms = None, user_id = None, feature = None, metadata = []\<rparr>"
proof -
  let ?rt = "\<lparr>lib_call = (\<lambda>n args. Inr Stream), post = (\<lambda>req. Status 200),
              elapsed_ms = 0, uuid4 = 1, utc_now = 2\<rparr>"
  let ?t = "CostTracker_init None ''https://api.cost-gpt.com'' None None"
  have e: "map_of PRICING (resolve_model_key ''gpt-4o'') = Some (float_lit 2.50, float_lit 10.00)"
    by (simp add: resolve_gpt4o_alias canonical_priced)
  have v: "float_mul (round_double (of_int 1000 / 1000000)) (float_lit 2.50) = float_lit 0.0025"
          "float_mul (round_double (of_int 500 / 1000000)) (float_lit 10.00) = float_lit 0.005"
          "float_add (float_lit 0.0025) (float_lit 0.005) = float_lit 0.0075"
    by (simp_all add: float_lit_gpt4o float_lit_costs round_double_1_1000 round_double_1_2000
          input_cost_gpt4o output_cost_gpt4o total_cost_gpt4o)
  from get_cost_formula [OF e, of 1000 500 ?rt ?t None None None None "[]"]
  show ?thesis
    using e token_limit_bounds(1,2)
    unfolding v by (simp add: CostTracker_init_def str_or_def dict_or_empty_def)
qed

text \<open>
  Claim C2 as stated fails for a non-negative token count of \<open>10 ^ 315\<close>: the model
  resolves, and \<open>get_cost\<close> returns no costs.
\<close>

theorem get_cost_huge_tokens_counterexample:
  "map_of PRICING (resolve_model_key ''gpt-4o'') = Some (float_lit 2.50, float_lit 10.00)
   \<and> (0::int) \<le> 10 ^ 315 \<and> (0::int) \<le> 500
   \<and> get_cost ''gpt-4o'' (10 ^ 315) 500 = Inl OverflowError"
proof -
  have e: "map_of PRICING (resolve_model_key ''gpt-4o'') = Some (float_lit 2.50, float_lit 10.00)"
    by (simp add: resolve_gpt4o_alias canonical_priced)
  have "get_cost ''gpt-4o'' (10 ^ 315) 500 = Inl OverflowError"
    unfolding get_cost_def e cost_of_entry_Some using token_limit_bounds(4) by simp
  with e show ?thesis by simp
qed




lemma transport_failure_absorbed: "transport_failure r \<Longrightarrow> absorbed_outcome r"
  by (cases r) simp_all

lemma track_absorbed_eq:
  assumes "\<And>req. absorbed_outcome (post rt req)"
  shows "fst (track rt self mname it ot uid feat dur meta sent)
           = fst (track rt (self\<lparr>client := None\<rparr>) mname it ot uid feat dur meta sent)"
proof (cases "get_cost mname it ot")
  case (Inl e)
  then show ?thesis by (simp add: track_def)
next
  case (Inr costs)
  obtain a b c where "costs = (a, b, c)" by (cases costs)
  with Inr show ?thesis
    by (cases "client self")
       (simp_all add: track_def Let_def send_event_def post_and_discard_absorbed [OF assms])
qed

text \<open>
  Claim C4. A transport failure (an \<open>httpx.HTTPError\<close> such as a timeout or a connection
  error, or a status that is not a 2xx) makes neither \<open>send_event\<close> nor \<open>send_events_batch\<close>
  raise: each returns \<open>None\<close> after exactly one POST (no retry), and \<open>track\<close> returns the
  \<open>UsageEvent\<close> that it returns when the POST succeeds and when no dispatcher is
  configured.
\<close>

theorem dispatch_failure_discarded:
  assumes "\<And>req. transport_failure (post rt req)"
  shows "send_event (post rt) c ev sent =
           (Inr (), sent @ [\<lparr>url = base_url c @ ''/v1/events'',
                            authorization = ''Bearer '' @ client_api_key c,
                            json = Single ev\<rparr>])
       \<and> send_events_batch (post rt) c evs sent =
           (Inr (), sent @ [\<lparr>url = base_url c @ ''/v1/events/batch'',
                            authorization = ''Bearer '' @ client_api_key c,
                            json = Batch evs\<rparr>])
       \<and> fst (track rt self mname it ot uid feat dur meta sent)
           = fst (track (rt\<lparr>post := \<lambda>req. Status 200\<rparr>) self mname it ot uid feat dur meta sent)
       \<and> fst (track rt self mname it ot uid feat dur meta sent)
           = fst (track rt (self\<lparr>client := None\<rparr>) mname it ot uid feat dur meta sent)"
proof -
  have a: "\<And>req. absorbed_outcome (post rt req)"
    using assms by (rule transport_failure_absorbed)
  have b: "\<And>req. absorbed_outcome (post (rt\<lparr>post := \<lambda>req. Status 200\<rparr>) req)" by simp
  have "fst (track (rt\<lparr>post := \<lambda>req. Status 200\<rparr>) self mname it ot uid feat dur meta sent)
          = fst (track (rt\<lparr>post := \<lambda>req. Status 200\<rparr>) (self\<lparr>client := None\<rparr>) mname it ot uid feat dur meta sent)"
    using b by (rule track_absorbed_eq)
  also have "\<dots> = fst (track rt (self\<lparr>client := None\<rparr>) mname it ot uid feat dur meta sent)"
    by (simp add: track_def Let_def split: sum.splits prod.splits)
  finally have c: "fst (track (rt\<lparr>post := \<lambda>req. Status 200\<rparr>) self mname it ot uid feat dur meta sent)
          = fst (track rt (self\<lparr>client := None\<rparr>) mname it ot uid feat dur meta sent)" .
  show ?thesis
    using track_absorbed_eq [OF a, of self mname it ot uid feat dur meta sent] c
    by (simp add: send_event_def send_events_batch_def post_and_discard_absorbed [OF a])
qed

theorem dispatch_failure_discarded_witness:
  "(\<forall>req. transport_failure (Raised TimeoutException))
   \<and> send_event (\<lambda>req. Raised TimeoutException)
        (APIClient_init ''key'' ''https://api.cost-gpt.com/'')
        \<lparr>event_id = 1, timestamp = 2, model = ''gpt-4o'', input_tokens = 1000,
         output_tokens = 500, input_cost = Fin 0, output_cost = Fin 0, total_cost = Fin 0,
         duration_ms = None, user_id = None, feature = None, metadata = []\<rparr> []
       = (Inr (),
          [\<lparr>url = ''https://api.cost-gpt.com/v1/events'', authorization = ''Bearer key'',
            json = Single
              \<lparr>event_id = 1, timestamp = 2, model = ''gpt-4o'', input_tokens = 1000,
               output_tokens = 500, input_cost = Fin 0, output_cost = Fin 0,
               total_cost = Fin 0, duration_ms = None, user_id = None, feature = None,
               metadata = []\<rparr>\<rparr>])"
proof -
  let ?rt = "\<lparr>lib_call = (\<lambda>n args. Inr Stream), post = (\<lambda>req. Raised TimeoutException),
              elapsed_ms = 0, uuid4 = 1, utc_now = 2\<rparr>"
  have f: "\<And>req. transport_failure (post ?rt req)" by simp
  from dispatch_failure_discarded [of ?rt, OF f]
  show ?thesis by (simp add: APIClient_init_def rstrip_slash_def)
qed

text \<open>
  Claim C7, as amended. The \<open>user_id\<close> (respectively \<open>feature\<close>) of the \<open>UsageEvent\<close> that
  \<open>track\<close> returns is the explicit argument whenever one is given and is not the empty
  string; when the argument is absent or is the empty string it is the tracker's
  configured default, which may itself be absent.
\<close>

theorem track_attribution:
  assumes "track rt self mname it ot uid feat dur meta sent = (Inr ev, sent')"
  shows "(case uid of
            None \<Rightarrow> user_id ev = default_user_id self
          | Some s \<Rightarrow> user_id ev = (if s = [] then default_user_id self else Some s))
       \<and> (case feat of
            None \<Rightarrow> feature ev = default_feature self
          | Some s \<Rightarrow> feature ev = (if s = [] then default_feature self else Some s))"
proof -
  from assms have "user_id ev = str_or uid (default_user_id self)
                     \<and> feature ev = str_or feat (default_feature self)"
    by (auto simp: track_def Let_def split: sum.splits prod.splits option.splits)
  then show ?thesis by (simp add: str_or_def split: option.splits)
qed

theorem track_attribution_witness:
  "(\<exists>ev sent'.
      track \<lparr>lib_call = (\<lambda>n args. Inr Stream), post = (\<lambda>req. Status 200),
             elapsed_ms = 0, uuid4 = 1, utc_now = 2\<rparr>
            (CostTracker_init None ''https://api.cost-gpt.com'' (Some ''bob'') None)
            ''unknown-model-xyz'' 100 100 (Some ''alice'') None None None [] = (Inr ev, sent')
      \<and> user_id ev = Some ''alice'' \<and> feature ev = None)"
proof -
  let ?rt = "\<lparr>lib_call = (\<lambda>n args. Inr Stream), post = (\<lambda>req. Status 200),
              elapsed_ms = 0, uuid4 = 1, utc_now = 2\<rparr>"
  let ?t = "CostTracker_init None ''https://api.cost-gpt.com'' (Some ''bob'') None"
  obtain ev sent' where
    t: "track ?rt ?t ''unknown-model-xyz'' 100 100 (Some ''alice'') None None None [] = (Inr ev, sent')"
    using track_returns [OF get_cost_unknown, of ?rt ?t "Some ''alice''" None None None "[]"]
    by auto
  from track_attribution [OF t] have "user_id ev = Some ''alice'' \<and> feature ev = None"
    by (simp add: CostTracker_init_def)
  with t show ?thesis by blast
qed

text \<open>
  Claim C7 as stated fails when the explicit argument is the empty string: the tracker's
  default is used instead of the argument.
\<close>

theorem empty_user_id_counterexample:
  "map_sum id (\<lambda>ev. (user_id ev, feature ev))
     (fst (track \<lparr>lib_call = (\<lambda>n args. Inr Stream), post = (\<lambda>req. Status 200),
                  elapsed_ms = 0, uuid4 = 1, utc_now = 2\<rparr>
                 (CostTracker_init None ''https://api.cost-gpt.com'' (Some ''bob'') (Some ''chat''))
                 ''unknown-model-xyz'' 100 100 (Some '''') (Some '''') None None []))
     = Inr (Some ''bob'', Some ''chat'')"
  by (simp add: track_def get_cost_unknown CostTracker_init_def str_or_def)

section \<open>Instrumentation\<close>

subsection \<open>Hook state machine\<close>

lemma instrument_step:
  assumes "wrapped_once lib0 p w"
  shows "wrapped_once lib0 p (snd (instrument p trk w))"
    and "hook_state_of (snd (instrument p trk w)) p
           = spec_step (lib0 \<noteq> None) (hook_state_of w p) (Install trk)"
    and "fst (instrument p trk w)
           = (if lib0 = None
              then Inl (ImportError (package_name p @ '' package not installed. Run: pip install ''
                                      @ package_name p))
              else Inr ())"
    and "hook_state_of (snd (instrument p trk w)) p = hook_state_of w p
           \<Longrightarrow> snd (instrument p trk w) = w"
  using assms
  by (auto simp: wrapped_once_def instrument_def hook_state_of_def split: option.splits)

lemma uninstrument_step:
  assumes "wrapped_once lib0 p w"
  shows "wrapped_once lib0 p (snd (uninstrument p w))"
    and "hook_state_of (snd (uninstrument p w)) p
           = spec_step (lib0 \<noteq> None) (hook_state_of w p) Uninstall"
    and "fst (uninstrument p w) = Inr ()"
    and "hook_state_of (snd (uninstrument p w)) p = hook_state_of w p
           \<Longrightarrow> snd (uninstrument p w) = w"
  using assms
  by (auto simp: wrapped_once_def uninstrument_def hook_state_of_def split: option.splits)

lemma apply_op_step:
  assumes "wrapped_once lib0 p w"
  shows "wrapped_once lib0 p (snd (apply_op p x w))"
    and "hook_state_of (snd (apply_op p x w)) p = spec_step (lib0 \<noteq> None) (hook_state_of w p) x"
    and "fst (apply_op p x w)
           = (case x of
                Install trk \<Rightarrow>
                  if lib0 = None
                  then Inl (ImportError (package_name p @ '' package not installed. Run: pip install ''
                                          @ package_name p))
                  else Inr ()
              | Uninstall \<Rightarrow> Inr ())"
    and "hook_state_of (snd (apply_op p x w)) p = hook_state_of w p \<Longrightarrow> snd (apply_op p x w) = w"
  using instrument_step [OF assms] uninstrument_step [OF assms]
  by (cases x; simp)+

lemma run_ops_invariant:
  assumes "wrapped_once lib0 p w"
  shows "wrapped_once lib0 p (run_ops p ops w)
       \<and> hook_state_of (run_ops p ops w) p = foldl (spec_step (lib0 \<noteq> None)) (hook_state_of w p) ops"
  using assms
proof (induction ops arbitrary: w)
  case Nil
  then show ?case by simp
next
  case (Cons x xs)
  from apply_op_step(1,2) [OF Cons.prems, of x] Cons.IH [of "snd (apply_op p x w)"]
  show ?case by simp
qed

text \<open>
  Claim C6. From a state in which nothing is installed for a provider, every sequence of
  install and uninstall operations follows the state machine of the specification, and
  the library slot stays wrapped at most once: it holds the library's own callable in
  \<open>NOT_INSTALLED\<close> and one wrapper around it in \<open>INSTALLED\<close>. A further operation \<open>x\<close>
  raises only when it is an install with the library absent (an \<open>ImportError\<close>), moves
  the state as the specification says, and changes nothing at all when the state does
  not move (install while \<open>INSTALLED\<close>, uninstall while \<open>NOT_INSTALLED\<close>, install with the
  library absent).
\<close>

theorem hook_state_machine:
  assumes "original_create (globals w0 p) = None"
  shows "hook_state_of (run_ops p ops w0) p
           = foldl (spec_step (library w0 p \<noteq> None)) NOT_INSTALLED ops
       \<and> wrapped_once (library w0 p) p (run_ops p ops w0)
       \<and> hook_state_of (snd (apply_op p x (run_ops p ops w0))) p
           = spec_step (library w0 p \<noteq> None) (hook_state_of (run_ops p ops w0) p) x
       \<and> wrapped_once (library w0 p) p (snd (apply_op p x (run_ops p ops w0)))
       \<and> fst (apply_op p x (run_ops p ops w0))
           = (case x of
                Install trk \<Rightarrow>
                  if library w0 p = None
                  then Inl (ImportError (package_name p @ '' package not installed. Run: pip install ''
                                          @ package_name p))
                  else Inr ()
              | Uninstall \<Rightarrow> Inr ())
       \<and> (hook_state_of (snd (apply_op p x (run_ops p ops w0))) p = hook_state_of (run_ops p ops w0) p
            \<longrightarrow> snd (apply_op p x (run_ops p ops w0)) = run_ops p ops w0)"
proof -
  have i: "wrapped_once (library w0 p) p w0" using assms by (simp add: wrapped_once_def)
  have s: "hook_state_of w0 p = NOT_INSTALLED" using assms by (simp add: hook_state_of_def)
  have r: "wrapped_once (library w0 p) p (run_ops p ops w0)"
    using run_ops_invariant [OF i, of ops] by simp
  show ?thesis
    using run_ops_invariant [OF i, of ops] apply_op_step [OF r, of x] s by simp
qed

theorem hook_state_machine_witness:
  "original_create
     (globals \<lparr>library = (\<lambda>q. case q of Anthropic \<Rightarrow> Some (LibraryFunction 0) | OpenAI \<Rightarrow> None),
               globals = (\<lambda>q. \<lparr>original_create = None, tracker = None\<rparr>),
               posts = []\<rparr> Anthropic) = None
   \<and> hook_state_of
        (run_ops Anthropic
           [Install (CostTracker_init None ''https://api.cost-gpt.com'' None None),
            Install (CostTracker_init None ''https://api.cost-gpt.com'' None None),
            Uninstall, Uninstall,
            Install (CostTracker_init None ''https://api.cost-gpt.com'' None None)]
           \<lparr>library = (\<lambda>q. case q of Anthropic \<Rightarrow> Some (LibraryFunction 0) | OpenAI \<Rightarrow> None),
            globals = (\<lambda>q. \<lparr>original_create = None, tracker = None\<rparr>),
            posts = []\<rparr>) Anthropic = INSTALLED
   \<and> wrapped_once (Some (LibraryFunction 0)) Anthropic
        (run_ops Anthropic
           [Install (CostTracker_init None ''https://api.cost-gpt.com'' None None),
            Install (CostTracker_init None ''https://api.cost-gpt.com'' None None),
            Uninstall, Uninstall,
            Install (CostTracker_init None ''https://api.cost-gpt.com'' None None)]
           \<lparr>library = (\<lambda>q. case q of Anthropic \<Rightarrow> Some (LibraryFunction 0) | OpenAI \<Rightarrow> None),
            globals = (\<lambda>q. \<lparr>original_create = None, tracker = None\<rparr>),
            posts = []\<rparr>)
   \<and> hook_state_of
        (run_ops OpenAI
           [Install (CostTracker_init None ''https://api.cost-gpt.com'' None None), Uninstall,
            Install (CostTracker_init None ''https://api.cost-gpt.com'' None None)]
           \<lparr>library = (\<lambda>q. case q of Anthropic \<Rightarrow> Some (LibraryFunction 0) | OpenAI \<Rightarrow> None),
            globals = (\<lambda>q. \<lparr>original_create = None, tracker = None\<rparr>),
            posts = []\<rparr>) OpenAI = NOT_INSTALLED"
proof -
  let ?t = "CostTracker_init None ''https://api.cost-gpt.com'' None None"
  let ?w = "\<lparr>library = (\<lambda>q. case q of Anthropic \<Rightarrow> Some (LibraryFunction 0) | OpenAI \<Rightarrow> None),
             globals = (\<lambda>q. \<lparr>original_create = None, tracker = None\<rparr>),
             posts = []\<rparr>"
  have a: "original_create (globals ?w Anthropic) = None" by simp
  have b: "original_create (globals ?w OpenAI) = None" by simp
  from hook_state_machine [OF a, of "[Install ?t, Install ?t, Uninstall, Uninstall, Install ?t]" Uninstall]
       hook_state_machine [OF b, of "[Install ?t, Uninstall, Install ?t]" Uninstall]
  show ?thesis by simp
qed

subsection \<open>The wrappers\<close>

lemma invoke_tracked:
  assumes "0 < depth"
  shows "invoke depth rt w (TrackedCreate p c) args =
     (case original_create (globals w p) of
        None \<Rightarrow> (Inl (TypeError ''NoneType object is not callable''), w)
      | Some f \<Rightarrow>
          (case invoke (depth - 1) rt w f args of
             (Inl e, w') \<Rightarrow> (Inl e, w')
           | (Inr res, w') \<Rightarrow>
               (case after_create p rt (tracker (globals w' p)) res (posts w') of
                  (r, sent') \<Rightarrow> (r, w'\<lparr>posts := sent'\<rparr>))))"
proof -
  from assms obtain d where d: "depth = Suc d" by (cases depth) simp_all
  show ?thesis unfolding d by (simp split: option.splits)
qed

text \<open>
  After an install on a slot that held a library function, a call of the slot calls that
  function with the same arguments; an exception of the function propagates, and a
  result goes through \<open>after_create\<close> with the installed tracker.
\<close>

lemma call_after_install:
  assumes "original_create (globals w p) = None" and "library w p = Some (LibraryFunction n)"
    and "0 < depth"
  shows "call_create depth rt (snd (instrument p trk w)) p args =
     (case lib_call rt n args of
        Inl e \<Rightarrow> (Inl e, snd (instrument p trk w))
      | Inr res \<Rightarrow>
          (case after_create p rt (Some trk) res (posts w) of
             (r, sent') \<Rightarrow> (r, (snd (instrument p trk w))\<lparr>posts := sent'\<rparr>)))"
  using assms
  by (simp add: call_create_def instrument_def invoke_tracked split: sum.splits)

text \<open>
  With a result that carries usage, both wrappers call \<open>track\<close> with the model, the two token
  counts and the measured duration, and return the result when \<open>track\<close> returns; an
  exception of \<open>track\<close> reaches the caller instead of the result.
\<close>

lemma after_create_with_usage:
  "after_create p rt (Some trk) (Result m (Some (Usage tin tout))) sent =
     (case track rt trk m tin tout None None (Some (elapsed_ms rt)) None sent of
        (Inl e, sent') \<Rightarrow> (Inl e, sent')
      | (Inr ev, sent') \<Rightarrow> (Inr (Result m (Some (Usage tin tout))), sent'))"
  by (cases p) (simp_all add: track_result_def)

text \<open>
  With a result that has neither attribute, as a streaming call returns, both wrappers
  raise \<open>AttributeError\<close>.
\<close>

lemma after_create_on_stream:
  "fst (after_create Anthropic rt (Some trk) Stream sent) = Inl (AttributeError ''model'')"
  "fst (after_create OpenAI rt (Some trk) Stream sent) = Inl (AttributeError ''usage'')"
  by simp_all

text \<open>
  Claim C5 at the failing input. The Anthropic library function returns a result whose
  \<open>usage\<close> is \<open>None\<close>. Called directly, the slot returns that result; after
  \<open>instrument\<close>, the same call raises \<open>AttributeError\<close> and the caller does not get the
  result. The OpenAI wrapper, on the same result, returns it.
\<close>

theorem anthropic_wrapper_without_usage:
  "fst (call_create 1000
          \<lparr>lib_call = (\<lambda>n args. Inr (Result ''claude-3-5-sonnet-20241022'' None)),
           post = (\<lambda>req. Status 200), elapsed_ms = 12, uuid4 = 1, utc_now = 2\<rparr>
          \<lparr>library = (\<lambda>q. Some (LibraryFunction 0)),
           globals = (\<lambda>q. \<lparr>original_create = None, tracker = None\<rparr>),
           posts = []\<rparr>
          Anthropic [''hello''])
     = Inr (Result ''claude-3-5-sonnet-20241022'' None)
   \<and> fst (instrument Anthropic (CostTracker_init None ''https://api.cost-gpt.com'' None None)
            \<lparr>library = (\<lambda>q. Some (LibraryFunction 0)),
             globals = (\<lambda>q. \<lparr>original_create = None, tracker = None\<rparr>),
             posts = []\<rparr>) = Inr ()
   \<and> fst (call_create 1000
          \<lparr>lib_call = (\<lambda>n args. Inr (Result ''claude-3-5-sonnet-20241022'' None)),
           post = (\<lambda>req. Status 200), elapsed_ms = 12, uuid4 = 1, utc_now = 2\<rparr>
          (snd (instrument Anthropic (CostTracker_init None ''https://api.cost-gpt.com'' None None)
             \<lparr>library = (\<lambda>q. Some (LibraryFunction 0)),
              globals = (\<lambda>q. \<lparr>original_create = None, tracker = None\<rparr>),
              posts = []\<rparr>))
          Anthropic [''hello''])
     = Inl (AttributeError ''input_tokens'')
   \<and> fst (call_create 1000
          \<lparr>lib_call = (\<lambda>n args. Inr (Result ''claude-3-5-sonnet-20241022'' None)),
           post = (\<lambda>req. Status 200), elapsed_ms = 12, uuid4 = 1, utc_now = 2\<rparr>
          (snd (instrument OpenAI (CostTracker_init None ''https://api.cost-gpt.com'' None None)
             \<lparr>library = (\<lambda>q. Some (LibraryFunction 0)),
              globals = (\<lambda>q. \<lparr>original_create = None, tracker = None\<rparr>),
              posts = []\<rparr>))
          OpenAI [''hello''])
     = Inr (Result ''claude-3-5-sonnet-20241022'' None)"
  by (simp add: call_after_install) (simp add: call_create_def instrument_def)

end
